theory Spec2Isabelle
  imports Main "HOL-Library.Finite_Map" "HOL-Library.Multiset"
begin

section \<open>Documents and the Python operations on them\<close>

text \<open>
  An artifact is whatever \<^verbatim>\<open>anymarkup.parse\<close> returns for a JSON document: a tree of
  dicts, lists, strings, numbers, booleans and \<^verbatim>\<open>None\<close>. A dict is a finite map, so that
  equality of documents is Python's \<^verbatim>\<open>==\<close> on dicts (the order of keys does not
  count). Numbers are Python ints; a boolean is taken to differ from every number (Python
  has \<^verbatim>\<open>True == 1\<close>). Documents are values: two places of a collection never hold the
  same object, as is the case for what the parser returns.
\<close>

datatype json =
    JNull
  | JBool bool
  | JNum int
  | JStr string
  | JArr "json list"
  | JObj "(string, json) fmap"

text \<open>The Python type of a document, as the message of an AttributeError names it.\<close>

datatype py_type = TNone | TBool | TInt | TStr | TList | TDict

fun type_of :: "json \<Rightarrow> py_type" where
  "type_of JNull = TNone"
| "type_of (JBool b) = TBool"
| "type_of (JNum n) = TInt"
| "type_of (JStr s) = TStr"
| "type_of (JArr xs) = TList"
| "type_of (JObj m) = TDict"

text \<open>
  The exceptions the modelled code can raise. A KeyError carries the missing key, an
  AttributeError the type of the object that lacks the attribute. \<open>FormatError\<close> is the
  plain \<^verbatim>\<open>Exception("Output of `oc export` command is of diferent kind than 'List'")\<close>
  of \<^verbatim>\<open>export_project\<close>; \<open>NameError\<close> is the unbound local \<^verbatim>\<open>resources\<close>. A function
  that raises returns the exception alone (\<open>Inl\<close>): what it has mutated before is not
  part of the result.
\<close>

datatype error =
    KeyError string
  | TypeError
  | AttributeError py_type
  | ValueError
  | NameError
  | FormatError

text \<open>Python truthiness, as used by \<^verbatim>\<open>if x:\<close>.\<close>

fun truthy :: "json \<Rightarrow> bool" where
  "truthy JNull = False"
| "truthy (JBool b) = b"
| "truthy (JNum n) = (n \<noteq> 0)"
| "truthy (JStr s) = (s \<noteq> [])"
| "truthy (JArr xs) = (xs \<noteq> [])"
| "truthy (JObj m) = (m \<noteq> fmempty)"

text \<open>\<^verbatim>\<open>obj[k]\<close> with a string key: KeyError on a dict without the key, TypeError on
  anything that is not a dict.\<close>

fun getitem :: "json \<Rightarrow> string \<Rightarrow> error + json" where
  "getitem (JObj m) k = (case fmlookup m k of None \<Rightarrow> Inl (KeyError k) | Some v \<Rightarrow> Inr v)"
| "getitem _ k = Inl TypeError"

text \<open>\<^verbatim>\<open>obj.get(k, d)\<close>: only dicts have the method.\<close>

fun dict_get :: "json \<Rightarrow> string \<Rightarrow> json \<Rightarrow> error + json" where
  "dict_get (JObj m) k d = (case fmlookup m k of None \<Rightarrow> Inr d | Some v \<Rightarrow> Inr v)"
| "dict_get obj k d = Inl (AttributeError (type_of obj))"

text \<open>\<^verbatim>\<open>obj[k] = v\<close> with a string key; the dict is mutated in place, the model returns
  the new dict.\<close>

fun setitem :: "json \<Rightarrow> string \<Rightarrow> json \<Rightarrow> error + json" where
  "setitem (JObj m) k v = Inr (JObj (fmupd k v m))"
| "setitem _ k v = Inl TypeError"

text \<open>\<^verbatim>\<open>del obj[k]\<close>.\<close>

fun delitem :: "json \<Rightarrow> string \<Rightarrow> error + json" where
  "delitem (JObj m) k =
     (case fmlookup m k of None \<Rightarrow> Inl (KeyError k) | Some v \<Rightarrow> Inr (JObj (fmdrop k m)))"
| "delitem _ k = Inl TypeError"

text \<open>
  A dict held inside a document is mutated in place; in the model the enclosing dict is
  rebuilt around the new value. \<open>with_item obj k v\<close> is \<open>obj\<close> with \<open>v\<close> under the key
  \<open>k\<close>; it is only applied to an \<open>obj\<close> whose \<open>obj[k]\<close> has been read before.
\<close>

fun with_item :: "json \<Rightarrow> string \<Rightarrow> json \<Rightarrow> json" where
  "with_item (JObj m) k v = JObj (fmupd k v m)"
| "with_item obj k v = obj"

text \<open>\<^verbatim>\<open>xs.remove(x)\<close>: removes the first element equal to \<open>x\<close>, ValueError if there
  is none.\<close>

definition list_remove :: "json \<Rightarrow> json list \<Rightarrow> error + json list" where
  "list_remove x xs = (if x \<in> set xs then Inr (remove1 x xs) else Inl ValueError)"

text \<open>\<^verbatim>\<open>sep.join(xs)\<close>.\<close>

fun join :: "string \<Rightarrow> string list \<Rightarrow> string" where
  "join sep [] = []"
| "join sep [x] = x"
| "join sep (x # y # ys) = x @ sep @ join sep (y # ys)"

section \<open>The exported project\<close>

text \<open>
  Modelled from the spec: the entries of \<^verbatim>\<open>self.images\<close> are built by
  \<^verbatim>\<open>utils.get_image_info\<close>, which is not part of the sources at hand. The code reads and
  writes their keys \<^verbatim>\<open>"original_image"\<close>, \<^verbatim>\<open>"image"\<close> (the field \<open>image_ref\<close>) and
  \<^verbatim>\<open>"internal"\<close>; the spec's ImageReference gives the types.
\<close>

record image_info =
  original_image :: string
  image_ref :: string
  internal :: bool

text \<open>\<^verbatim>\<open>self.artifacts\<close> is a dict from provider to the list of its artifacts.\<close>

record exported_project =
  artifacts :: "(string, json list) fmap"
  images :: "image_info list"

text \<open>
  Modelled from the spec: \<^verbatim>\<open>constants.NULECULE_PROVIDERS\<close> is not part of the sources at
  hand. The functions below take the provider list as a parameter; this is the list of the
  two providers the code branches on.
\<close>

definition NULECULE_PROVIDERS :: "string list" where
  "NULECULE_PROVIDERS = [''kubernetes'', ''openshift'']"

section \<open>\<^verbatim>\<open>ExportedProject.__init__\<close>\<close>

text \<open>
  The loop over the artifacts of one provider (lines 173-177). \<open>get_info\<close> stands for
  \<^verbatim>\<open>utils.get_image_info\<close>.
\<close>

fun scan_artifacts ::
  "(json \<Rightarrow> error + image_info list) \<Rightarrow> json list \<Rightarrow> image_info list \<Rightarrow> error + image_info list"
where
  "scan_artifacts get_info [] imgs = Inr imgs"
| "scan_artifacts get_info (artifact # rest) imgs =
     (case getitem artifact ''kind'' of
        Inl e \<Rightarrow> Inl e
      | Inr k \<Rightarrow>
          if k = JStr ''ReplicationController'' \<or> k = JStr ''DeploymentConfig'' then
            (case get_info artifact of
               Inl e \<Rightarrow> Inl e
             | Inr infos \<Rightarrow> scan_artifacts get_info rest (imgs @ infos))
          else scan_artifacts get_info rest imgs)"

text \<open>The loop over the providers (line 172); \<^verbatim>\<open>self.artifacts[provider]\<close> raises
  KeyError for a provider that is not a key.\<close>

fun scan_providers ::
  "(json \<Rightarrow> error + image_info list) \<Rightarrow> string list \<Rightarrow> (string, json list) fmap \<Rightarrow>
   image_info list \<Rightarrow> error + image_info list"
where
  "scan_providers get_info [] arts imgs = Inr imgs"
| "scan_providers get_info (provider # rest) arts imgs =
     (case fmlookup arts provider of
        None \<Rightarrow> Inl (KeyError provider)
      | Some xs \<Rightarrow>
          (case scan_artifacts get_info xs imgs of
             Inl e \<Rightarrow> Inl e
           | Inr imgs' \<Rightarrow> scan_providers get_info rest arts imgs'))"

text \<open>\<^verbatim>\<open>obj.get("metadata", {}).get("annotations", {})\<close> (lines 192 and 319).\<close>

definition get_annotations :: "json \<Rightarrow> error + json" where
  "get_annotations obj =
     (case dict_get obj ''metadata'' (JObj fmempty) of
        Inl e \<Rightarrow> Inl e
      | Inr md \<Rightarrow> dict_get md ''annotations'' (JObj fmempty))"

text \<open>
  \<^verbatim>\<open>_remove_imagestream_annotations\<close>, the body of the loop (lines 318-320) for one
  object. \<^verbatim>\<open>del obj["metadata"]["annotations"]\<close> reads \<^verbatim>\<open>obj["metadata"]\<close> and deletes
  the key in that dict, which is the one the object holds.
\<close>

definition scrub_annotations :: "json \<Rightarrow> error + json" where
  "scrub_annotations obj =
     (case getitem obj ''kind'' of
        Inl e \<Rightarrow> Inl e
      | Inr k \<Rightarrow>
          if k = JStr ''ImageStream'' then
            (case get_annotations obj of
               Inl e \<Rightarrow> Inl e
             | Inr an \<Rightarrow>
                 if truthy an then
                   (case getitem obj ''metadata'' of
                      Inl e \<Rightarrow> Inl e
                    | Inr md \<Rightarrow>
                        (case delitem md ''annotations'' of
                           Inl e \<Rightarrow> Inl e
                         | Inr md' \<Rightarrow> Inr (with_item obj ''metadata'' md')))
                 else Inr obj)
          else Inr obj)"

fun scrub_loop :: "json list \<Rightarrow> error + json list" where
  "scrub_loop [] = Inr []"
| "scrub_loop (obj # rest) =
     (case scrub_annotations obj of
        Inl e \<Rightarrow> Inl e
      | Inr obj' \<Rightarrow>
          (case scrub_loop rest of
             Inl e \<Rightarrow> Inl e
           | Inr rest' \<Rightarrow> Inr (obj' # rest')))"

definition remove_imagestream_annotations ::
  "(string, json list) fmap \<Rightarrow> error + (string, json list) fmap"
where
  "remove_imagestream_annotations arts =
     (case fmlookup arts ''openshift'' of
        None \<Rightarrow> Inl (KeyError ''openshift'')
      | Some xs \<Rightarrow>
          (case scrub_loop xs of
             Inl e \<Rightarrow> Inl e
           | Inr xs' \<Rightarrow> Inr (fmupd ''openshift'' xs' arts)))"

text \<open>
  \<^verbatim>\<open>_remove_openshift_objects\<close>: the test of lines 189-193 on one object, True when
  the object is to be removed.
\<close>

definition created_by_dc :: "json \<Rightarrow> error + bool" where
  "created_by_dc obj =
     (case getitem obj ''kind'' of
        Inl e \<Rightarrow> Inl e
      | Inr k \<Rightarrow>
          if k = JStr ''ReplicationController'' then
            (case get_annotations obj of
               Inl e \<Rightarrow> Inl e
             | Inr an \<Rightarrow>
                 (case dict_get an ''openshift.io/deployment-config.name'' (JObj fmempty) of
                    Inl e \<Rightarrow> Inl e
                  | Inr deployment_config_name \<Rightarrow> Inr (truthy deployment_config_name)))
          else Inr False)"

text \<open>The loop of line 188 runs over a copy of the list (first argument) and removes from
  the list itself (second argument).\<close>

fun remove_loop :: "json list \<Rightarrow> json list \<Rightarrow> error + json list" where
  "remove_loop [] cur = Inr cur"
| "remove_loop (obj # rest) cur =
     (case created_by_dc obj of
        Inl e \<Rightarrow> Inl e
      | Inr True \<Rightarrow>
          (case list_remove obj cur of
             Inl e \<Rightarrow> Inl e
           | Inr cur' \<Rightarrow> remove_loop rest cur')
      | Inr False \<Rightarrow> remove_loop rest cur)"

definition remove_openshift_objects ::
  "(string, json list) fmap \<Rightarrow> error + (string, json list) fmap"
where
  "remove_openshift_objects arts =
     (case fmlookup arts ''openshift'' of
        None \<Rightarrow> Inl (KeyError ''openshift'')
      | Some xs \<Rightarrow>
          (case remove_loop xs xs of
             Inl e \<Rightarrow> Inl e
           | Inr xs' \<Rightarrow> Inr (fmupd ''openshift'' xs' arts)))"

text \<open>The constructor (lines 166-180): the images, then
  \<^verbatim>\<open>_remove_imagestream_annotations\<close>, then \<^verbatim>\<open>_remove_openshift_objects\<close>.\<close>

definition ExportedProject_init ::
  "(json \<Rightarrow> error + image_info list) \<Rightarrow> string list \<Rightarrow> (string, json list) fmap \<Rightarrow>
   error + exported_project"
where
  "ExportedProject_init get_info providers arts =
     (case scan_providers get_info providers arts [] of
        Inl e \<Rightarrow> Inl e
      | Inr imgs \<Rightarrow>
          (case remove_imagestream_annotations arts of
             Inl e \<Rightarrow> Inl e
           | Inr arts1 \<Rightarrow>
               (case remove_openshift_objects arts1 of
                  Inl e \<Rightarrow> Inl e
                | Inr arts2 \<Rightarrow> Inr \<lparr>artifacts = arts2, images = imgs\<rparr>)))"

section \<open>\<^verbatim>\<open>OpenshiftClient.export_project\<close>\<close>

text \<open>
  The parsed output of \<^verbatim>\<open>oc export ... -o json\<close>: the code reads its \<^verbatim>\<open>"kind"\<close> and its
  \<^verbatim>\<open>"items"\<close>. The call of the binary and the parser are outside the sources at hand: the
  parameter \<open>oc\<close> of the functions below maps the arguments of \<^verbatim>\<open>_call_oc\<close> to the
  parsed document.
\<close>

record envelope =
  env_kind :: string
  env_items :: "json list"

text \<open>The resource list of a provider (lines 123-133); the local variable keeps its value
  from the iteration before when the provider is neither of the two.\<close>

definition resources_of :: "string \<Rightarrow> string list option \<Rightarrow> string list option" where
  "resources_of provider previous =
     (if provider = ''kubernetes'' then
        Some [''persistentVolumeClaim'', ''service'', ''replicationController'']
      else if provider = ''openshift'' then
        Some [''imageStream'', ''service'', ''persistentVolumeClaim'',
              ''replicationController'', ''deploymentConfig'', ''buildConfig'']
      else previous)"

text \<open>The arguments of the call (lines 136-139); \<^verbatim>\<open>if self.selector\<close> is false for
  \<^verbatim>\<open>None\<close> and for the empty string.\<close>

definition export_args :: "string option \<Rightarrow> string list \<Rightarrow> string list" where
  "export_args selector resources =
     [''export'', join '','' resources, ''-o'', ''json''] @
     (case selector of
        None \<Rightarrow> []
      | Some s \<Rightarrow> if s \<noteq> [] then [''-l'', s] else [])"

fun export_loop ::
  "(string list \<Rightarrow> envelope) \<Rightarrow> string option \<Rightarrow> string list \<Rightarrow> string list option \<Rightarrow>
   (string, json list) fmap \<Rightarrow> error + (string, json list) fmap"
where
  "export_loop oc selector [] previous all_artifacts = Inr all_artifacts"
| "export_loop oc selector (provider # rest) previous all_artifacts =
     (case resources_of provider previous of
        None \<Rightarrow> Inl NameError
      | Some resources \<Rightarrow>
          (let objects = oc (export_args selector resources) in
           if env_kind objects = ''List'' then
             export_loop oc selector rest (Some resources)
               (fmupd provider (env_items objects) all_artifacts)
           else Inl FormatError))"

definition export_project ::
  "(string list \<Rightarrow> envelope) \<Rightarrow> string option \<Rightarrow> (json \<Rightarrow> error + image_info list) \<Rightarrow>
   string list \<Rightarrow> error + exported_project"
where
  "export_project oc selector get_info providers =
     (case export_loop oc selector providers None fmempty of
        Inl e \<Rightarrow> Inl e
      | Inr all_artifacts \<Rightarrow> ExportedProject_init get_info providers all_artifacts)"

section \<open>\<^verbatim>\<open>utils.get_image_info\<close>\<close>

text \<open>
  Modelled from the spec: \<^verbatim>\<open>utils.get_image_info\<close> is not part of the sources at hand.
  The spec: for each container of the artifact, at
  \<^verbatim>\<open>spec.template.spec.containers[*].image\<close>, extract its image reference, classify
  \<open>internal\<close> by the internal-registry predicate, and append one ImageReference per
  container occurrence; \<open>original_image\<close> is the reference as first observed and \<open>image\<close>
  the current one. \<open>is_internal\<close> is the predicate.
\<close>

fun container_infos :: "(string \<Rightarrow> bool) \<Rightarrow> json list \<Rightarrow> error + image_info list" where
  "container_infos is_internal [] = Inr []"
| "container_infos is_internal (container # rest) =
     (case getitem container ''image'' of
        Inl e \<Rightarrow> Inl e
      | Inr (JStr s) \<Rightarrow>
          (case container_infos is_internal rest of
             Inl e \<Rightarrow> Inl e
           | Inr infos \<Rightarrow>
               Inr (\<lparr>original_image = s, image_ref = s, internal = is_internal s\<rparr> # infos))
      | Inr _ \<Rightarrow> Inl TypeError)"

text \<open>\<^verbatim>\<open>artifact["spec"]["template"]["spec"]["containers"]\<close>.\<close>

definition get_containers :: "json \<Rightarrow> error + json" where
  "get_containers artifact =
     (case getitem artifact ''spec'' of
        Inl e \<Rightarrow> Inl e
      | Inr spec \<Rightarrow>
          (case getitem spec ''template'' of
             Inl e \<Rightarrow> Inl e
           | Inr template \<Rightarrow>
               (case getitem template ''spec'' of
                  Inl e \<Rightarrow> Inl e
                | Inr pod_spec \<Rightarrow> getitem pod_spec ''containers'')))"

definition get_image_info :: "(string \<Rightarrow> bool) \<Rightarrow> json \<Rightarrow> error + image_info list" where
  "get_image_info is_internal artifact =
     (case get_containers artifact of
        Inl e \<Rightarrow> Inl e
      | Inr (JArr containers) \<Rightarrow> container_infos is_internal containers
      | Inr _ \<Rightarrow> Inl TypeError)"

section \<open>\<^verbatim>\<open>ExportedProject.pull_images\<close>\<close>

text \<open>
  \<^verbatim>\<open>utils.run_cmd\<close> runs a command; its three results are never read. The model keeps
  the list of the commands run, in order. \<open>replace_registry_host\<close> stands for the function
  of \<^verbatim>\<open>utils\<close> of that name.
\<close>

definition docker_login :: "string \<Rightarrow> string \<Rightarrow> string \<Rightarrow> string list" where
  "docker_login registry username password =
     [''docker'', ''login'', ''-u'', username, ''-p'', password,
      ''-e'', username @ ''@'' @ registry, registry]"

text \<open>The body of the loop of lines 220-231 for one entry: the entry after it and the
  commands it runs.\<close>

definition pull_image ::
  "(string \<Rightarrow> string \<Rightarrow> string) \<Rightarrow> string \<Rightarrow> bool \<Rightarrow> image_info \<Rightarrow>
   image_info \<times> string list list"
where
  "pull_image replace_registry_host registry only_internal image_info =
     (if internal image_info then
        (let image_info' =
               image_info\<lparr>image_ref := replace_registry_host (image_ref image_info) registry\<rparr>
         in (image_info', [[''docker'', ''pull'', image_ref image_info']]))
      else if only_internal then (image_info, [])
      else (image_info, [[''docker'', ''pull'', image_ref image_info]]))"

fun pull_loop ::
  "(string \<Rightarrow> string \<Rightarrow> string) \<Rightarrow> string \<Rightarrow> bool \<Rightarrow> image_info list \<Rightarrow>
   string list list \<Rightarrow> image_info list \<times> string list list"
where
  "pull_loop replace_registry_host registry only_internal [] cmds = ([], cmds)"
| "pull_loop replace_registry_host registry only_internal (image_info # rest) cmds =
     (case pull_image replace_registry_host registry only_internal image_info of
        (image_info', new) \<Rightarrow>
          (case pull_loop replace_registry_host registry only_internal rest (cmds @ new) of
             (rest', cmds') \<Rightarrow> (image_info' # rest', cmds')))"

definition pull_images ::
  "(string \<Rightarrow> string \<Rightarrow> string) \<Rightarrow> string \<Rightarrow> string \<Rightarrow> string \<Rightarrow> bool \<Rightarrow>
   exported_project \<Rightarrow> exported_project \<times> string list list"
where
  "pull_images replace_registry_host registry username password only_internal ep =
     (case pull_loop replace_registry_host registry only_internal (images ep)
             [docker_login registry username password] of
        (imgs, cmds) \<Rightarrow> (ep\<lparr>images := imgs\<rparr>, cmds))"

section \<open>\<^verbatim>\<open>ExportedProject.push_images\<close>\<close>

text \<open>\<^verbatim>\<open>"{}".format(x)\<close> for a string or \<^verbatim>\<open>None\<close>.\<close>

fun format_str :: "string option \<Rightarrow> string" where
  "format_str None = ''None''"
| "format_str (Some s) = s"

text \<open>\<^verbatim>\<open>if x:\<close> for a string or \<^verbatim>\<open>None\<close>.\<close>

fun nonempty :: "string option \<Rightarrow> bool" where
  "nonempty None = False"
| "nonempty (Some s) = (s \<noteq> [])"

text \<open>
  The body of the loop of lines 259-290 for one entry. \<open>parse_image_name\<close> stands for the
  function of \<^verbatim>\<open>utils\<close> of that name; it returns the name, the tag and the digest, the
  last two \<^verbatim>\<open>None\<close> when the reference has none.
\<close>

definition push_image ::
  "(string \<Rightarrow> string \<Rightarrow> string) \<Rightarrow> (string \<Rightarrow> string \<times> string option \<times> string option) \<Rightarrow>
   string \<Rightarrow> bool \<Rightarrow> image_info \<Rightarrow> image_info \<times> string list list"
where
  "push_image replace_registry_host parse_image_name registry only_internal image_info =
     (if only_internal \<and> \<not> internal image_info then (image_info, [])
      else
        (let name_new_registry = replace_registry_host (image_ref image_info) registry in
         case parse_image_name name_new_registry of
           (new_name, new_name_tag, new_name_digest) \<Rightarrow>
             (let tag =
                    (if nonempty new_name_digest then
                       Some (filter (\<lambda>c. c \<noteq> CHR '':'') (format_str new_name_digest))
                     else new_name_tag);
                  new_full_name = new_name @ '':'' @ format_str tag
              in (image_info\<lparr>image_ref := new_full_name\<rparr>,
                  [[''docker'', ''tag'', ''-f'', image_ref image_info, new_full_name],
                   [''docker'', ''push'', new_full_name]]))))"

fun push_loop ::
  "(string \<Rightarrow> string \<Rightarrow> string) \<Rightarrow> (string \<Rightarrow> string \<times> string option \<times> string option) \<Rightarrow>
   string \<Rightarrow> bool \<Rightarrow> image_info list \<Rightarrow> string list list \<Rightarrow>
   image_info list \<times> string list list"
where
  "push_loop replace_registry_host parse_image_name registry only_internal [] cmds = ([], cmds)"
| "push_loop replace_registry_host parse_image_name registry only_internal (image_info # rest) cmds =
     (case push_image replace_registry_host parse_image_name registry only_internal image_info of
        (image_info', new) \<Rightarrow>
          (case push_loop replace_registry_host parse_image_name registry only_internal rest
                  (cmds @ new) of
             (rest', cmds') \<Rightarrow> (image_info' # rest', cmds')))"

definition push_images ::
  "(string \<Rightarrow> string \<Rightarrow> string) \<Rightarrow> (string \<Rightarrow> string \<times> string option \<times> string option) \<Rightarrow>
   string \<Rightarrow> string option \<Rightarrow> string option \<Rightarrow> bool \<Rightarrow>
   exported_project \<Rightarrow> exported_project \<times> string list list"
where
  "push_images replace_registry_host parse_image_name registry username password only_internal ep =
     (case push_loop replace_registry_host parse_image_name registry only_internal (images ep)
             (if nonempty username \<and> nonempty password then
                [docker_login registry (format_str username) (format_str password)]
              else []) of
        (imgs, cmds) \<Rightarrow> (ep\<lparr>images := imgs\<rparr>, cmds))"

section \<open>\<^verbatim>\<open>ExportedProject.update_artifacts_images\<close>\<close>

text \<open>
  The arguments of the log call of lines 306-309, evaluated from left to right before the
  assignment of line 310: \<^verbatim>\<open>container["image"]\<close>, \<^verbatim>\<open>artifact["kind"]\<close> and
  \<^verbatim>\<open>artifact["metadata"]["name"]\<close>. Each read can raise; the message itself is not
  modelled.
\<close>

definition log_arguments :: "json \<Rightarrow> json \<Rightarrow> error + json \<times> json \<times> json" where
  "log_arguments artifact container =
     (case getitem container ''image'' of
        Inl e \<Rightarrow> Inl e
      | Inr i \<Rightarrow>
          (case getitem artifact ''kind'' of
             Inl e \<Rightarrow> Inl e
           | Inr k \<Rightarrow>
               (case getitem artifact ''metadata'' of
                  Inl e \<Rightarrow> Inl e
                | Inr md \<Rightarrow>
                    (case getitem md ''name'' of
                       Inl e \<Rightarrow> Inl e
                     | Inr n \<Rightarrow> Inr (i, k, n)))))"

text \<open>The loop over the images for one container (lines 304-310), in the artifact that
  holds it. The container is read again at every comparison, so an image written by one
  entry is what the next entry is compared with.\<close>

fun update_container :: "json \<Rightarrow> image_info list \<Rightarrow> json \<Rightarrow> error + json" where
  "update_container artifact [] container = Inr container"
| "update_container artifact (image_info # rest) container =
     (case getitem container ''image'' of
        Inl e \<Rightarrow> Inl e
      | Inr v \<Rightarrow>
          if v = JStr (original_image image_info) then
            (case log_arguments artifact container of
               Inl e \<Rightarrow> Inl e
             | Inr args \<Rightarrow>
                 (case setitem container ''image'' (JStr (image_ref image_info)) of
                    Inl e \<Rightarrow> Inl e
                  | Inr container' \<Rightarrow> update_container artifact rest container'))
          else update_container artifact rest container)"

fun update_containers :: "json \<Rightarrow> image_info list \<Rightarrow> json list \<Rightarrow> error + json list" where
  "update_containers artifact imgs [] = Inr []"
| "update_containers artifact imgs (container # rest) =
     (case update_container artifact imgs container of
        Inl e \<Rightarrow> Inl e
      | Inr container' \<Rightarrow>
          (case update_containers artifact imgs rest of
             Inl e \<Rightarrow> Inl e
           | Inr rest' \<Rightarrow> Inr (container' # rest')))"

text \<open>
  The loop of lines 302-303 over the value of \<^verbatim>\<open>"containers"\<close>. A list gives its
  elements. A dict gives its keys and a string its characters: each is a string, on which
  \<^verbatim>\<open>container["image"]\<close> raises TypeError at the first comparison, so the loop fails
  unless there is no element or no image. Anything else cannot be iterated.
\<close>

fun update_container_list :: "json \<Rightarrow> image_info list \<Rightarrow> json \<Rightarrow> error + json" where
  "update_container_list artifact imgs (JArr xs) =
     (case update_containers artifact imgs xs of
        Inl e \<Rightarrow> Inl e
      | Inr xs' \<Rightarrow> Inr (JArr xs'))"
| "update_container_list artifact imgs (JObj m) =
     (if m = fmempty \<or> imgs = [] then Inr (JObj m) else Inl TypeError)"
| "update_container_list artifact imgs (JStr s) =
     (if s = [] \<or> imgs = [] then Inr (JStr s) else Inl TypeError)"
| "update_container_list artifact imgs _ = Inl TypeError"

text \<open>
  The containers are mutated inside the artifact. In the model the new value of
  \<^verbatim>\<open>"containers"\<close> is put back where \<open>get_containers\<close> read it, each dict on the path
  rebuilt around it; an artifact without that path is left as it is.
\<close>

definition put_containers :: "json \<Rightarrow> json \<Rightarrow> json" where
  "put_containers artifact containers =
     (case getitem artifact ''spec'' of
        Inl e \<Rightarrow> artifact
      | Inr spec \<Rightarrow>
          (case getitem spec ''template'' of
             Inl e \<Rightarrow> artifact
           | Inr template \<Rightarrow>
               (case getitem template ''spec'' of
                  Inl e \<Rightarrow> artifact
                | Inr pod_spec \<Rightarrow>
                    with_item artifact ''spec''
                      (with_item spec ''template''
                        (with_item template ''spec''
                          (with_item pod_spec ''containers'' containers))))))"

text \<open>The body of the loop over the artifacts (lines 301-310).\<close>

definition update_artifact :: "image_info list \<Rightarrow> json \<Rightarrow> error + json" where
  "update_artifact imgs artifact =
     (case getitem artifact ''kind'' of
        Inl e \<Rightarrow> Inl e
      | Inr k \<Rightarrow>
          if k = JStr ''ReplicationController'' \<or> k = JStr ''DeploymentConfig'' then
            (case get_containers artifact of
               Inl e \<Rightarrow> Inl e
             | Inr containers \<Rightarrow>
                 (case update_container_list artifact imgs containers of
                    Inl e \<Rightarrow> Inl e
                  | Inr containers' \<Rightarrow> Inr (put_containers artifact containers')))
          else Inr artifact)"

fun update_artifacts :: "image_info list \<Rightarrow> json list \<Rightarrow> error + json list" where
  "update_artifacts imgs [] = Inr []"
| "update_artifacts imgs (artifact # rest) =
     (case update_artifact imgs artifact of
        Inl e \<Rightarrow> Inl e
      | Inr artifact' \<Rightarrow>
          (case update_artifacts imgs rest of
             Inl e \<Rightarrow> Inl e
           | Inr rest' \<Rightarrow> Inr (artifact' # rest')))"

fun update_providers ::
  "image_info list \<Rightarrow> string list \<Rightarrow> (string, json list) fmap \<Rightarrow>
   error + (string, json list) fmap"
where
  "update_providers imgs [] arts = Inr arts"
| "update_providers imgs (provider # rest) arts =
     (case fmlookup arts provider of
        None \<Rightarrow> Inl (KeyError provider)
      | Some xs \<Rightarrow>
          (case update_artifacts imgs xs of
             Inl e \<Rightarrow> Inl e
           | Inr xs' \<Rightarrow> update_providers imgs rest (fmupd provider xs' arts)))"

definition update_artifacts_images ::
  "string list \<Rightarrow> exported_project \<Rightarrow> error + exported_project"
where
  "update_artifacts_images providers ep =
     (case update_providers (images ep) providers (artifacts ep) of
        Inl e \<Rightarrow> Inl e
      | Inr arts \<Rightarrow> Inr (ep\<lparr>artifacts := arts\<rparr>))"

section \<open>Observers used in the statements\<close>

text \<open>The test of lines 175-176 and 301.\<close>

definition is_workload :: "json \<Rightarrow> bool" where
  "is_workload artifact =
     (getitem artifact ''kind'' = Inr (JStr ''ReplicationController'') \<or>
      getitem artifact ''kind'' = Inr (JStr ''DeploymentConfig''))"

text \<open>The artifacts of a provider, none when the provider is not a key.\<close>

definition provider_artifacts :: "(string, json list) fmap \<Rightarrow> string \<Rightarrow> json list" where
  "provider_artifacts arts provider = (case fmlookup arts provider of None \<Rightarrow> [] | Some xs \<Rightarrow> xs)"

text \<open>The containers of an artifact, none when the path does not lead to a list; the
  image string of a container, empty when it has none.\<close>

definition containers_of :: "json \<Rightarrow> json list" where
  "containers_of artifact = (case get_containers artifact of Inr (JArr cs) \<Rightarrow> cs | _ \<Rightarrow> [])"

definition image_of :: "json \<Rightarrow> string" where
  "image_of container = (case getitem container ''image'' of Inr (JStr s) \<Rightarrow> s | _ \<Rightarrow> [])"

text \<open>
  What the loop of lines 304-310 makes of the value of a container's \<^verbatim>\<open>"image"\<close>
  when it does not raise: the entries are gone through in order, and an entry whose
  \<open>original_image\<close> is the value at that moment replaces it by its \<open>image_ref\<close>.
\<close>

fun rewrite_image :: "image_info list \<Rightarrow> json \<Rightarrow> json" where
  "rewrite_image [] v = v"
| "rewrite_image (i # rest) v =
     (if v = JStr (original_image i) then rewrite_image rest (JStr (image_ref i))
      else rewrite_image rest v)"

section \<open>The constructor in the order of the spec\<close>

text \<open>
  The order of the spec, for comparison with the constructor: the images, then the
  pruning (\<^verbatim>\<open>_remove_openshift_objects\<close>), then the scrubbing
  (\<^verbatim>\<open>_remove_imagestream_annotations\<close>).
\<close>

definition ExportedProject_init_spec_order ::
  "(json \<Rightarrow> error + image_info list) \<Rightarrow> string list \<Rightarrow> (string, json list) fmap \<Rightarrow>
   error + exported_project"
where
  "ExportedProject_init_spec_order get_info providers arts =
     (case scan_providers get_info providers arts [] of
        Inl e \<Rightarrow> Inl e
      | Inr imgs \<Rightarrow>
          (case remove_openshift_objects arts of
             Inl e \<Rightarrow> Inl e
           | Inr arts1 \<Rightarrow>
               (case remove_imagestream_annotations arts1 of
                  Inl e \<Rightarrow> Inl e
                | Inr arts2 \<Rightarrow> Inr \<lparr>artifacts = arts2, images = imgs\<rparr>)))"

section \<open>Example inputs\<close>

text \<open>An \<^verbatim>\<open>oc\<close> that answers the query of the kubernetes provider with a list of one service
  and every other query with a single pod.\<close>

definition oc_pod :: "string list \<Rightarrow> envelope" where
  "oc_pod args =
     (if args = export_args None [''persistentVolumeClaim'', ''service'', ''replicationController'']
      then \<lparr>env_kind = ''List'', env_items = [JObj (fmupd ''kind'' (JStr ''Service'') fmempty)]\<rparr>
      else \<lparr>env_kind = ''Pod'', env_items = []\<rparr>)"

text \<open>Stand-ins for \<^verbatim>\<open>utils.replace_registry_host\<close> and \<^verbatim>\<open>utils.parse_image_name\<close>, for
  the examples only: the host is what precedes the first slash, the digest what follows
  the at sign, the tag what follows the first colon otherwise.\<close>

definition example_replace_registry_host :: "string \<Rightarrow> string \<Rightarrow> string" where
  "example_replace_registry_host img registry = registry @ dropWhile (\<lambda>c. c \<noteq> CHR ''/'') img"

definition example_parse_image_name :: "string \<Rightarrow> string \<times> string option \<times> string option" where
  "example_parse_image_name img =
     (if CHR ''@'' \<in> set img then
        (takeWhile (\<lambda>c. c \<noteq> CHR ''@'') img, None,
         Some (tl (dropWhile (\<lambda>c. c \<noteq> CHR ''@'') img)))
      else if CHR '':'' \<in> set img then
        (takeWhile (\<lambda>c. c \<noteq> CHR '':'') img,
         Some (tl (dropWhile (\<lambda>c. c \<noteq> CHR '':'') img)), None)
      else (img, None, None))"

text \<open>An inventory of one internal image, referenced by digest, and one external image.\<close>

definition example_images :: "image_info list" where
  "example_images =
     [\<lparr>original_image = ''registry.example.com/app@sha256:abcd1234'',
       image_ref = ''registry.example.com/app@sha256:abcd1234'', internal = True\<rparr>,
      \<lparr>original_image = ''docker.io/db:9.4'', image_ref = ''docker.io/db:9.4'',
       internal = False\<rparr>]"

definition example_project :: exported_project where
  "example_project = \<lparr>artifacts = fmempty, images = example_images\<rparr>"

text \<open>Documents for the examples: a workload of the given kind, name and annotations with
  one container per image.\<close>

definition workload :: "string \<Rightarrow> string \<Rightarrow> (string \<times> json) list \<Rightarrow> string list \<Rightarrow> json" where
  "workload kind name annotations imgs =
     JObj (fmap_of_list
       [(''kind'', JStr kind),
        (''metadata'', JObj (fmap_of_list
           [(''name'', JStr name), (''annotations'', JObj (fmap_of_list annotations))])),
        (''spec'', JObj (fmap_of_list
           [(''template'', JObj (fmap_of_list
              [(''spec'', JObj (fmap_of_list
                 [(''containers'',
                   JArr (map (\<lambda>i. JObj (fmap_of_list [(''image'', JStr i)])) imgs))]))]))]))])"

definition svc :: json where
  "svc = JObj (fmap_of_list [(''kind'', JStr ''Service'')])"

definition image_stream :: json where
  "image_stream =
     JObj (fmap_of_list
       [(''kind'', JStr ''ImageStream''),
        (''metadata'', JObj (fmap_of_list
           [(''name'', JStr ''app''),
            (''annotations'', JObj (fmap_of_list [(''a'', JStr ''b'')]))]))])"

definition image_stream_scrubbed :: json where
  "image_stream_scrubbed =
     JObj (fmap_of_list
       [(''kind'', JStr ''ImageStream''),
        (''metadata'', JObj (fmap_of_list [(''name'', JStr ''app'')]))])"

definition rc_generated :: json where
  "rc_generated =
     workload ''ReplicationController'' ''app-1''
       [(''openshift.io/deployment-config.name'', JStr ''app'')] [''int/app:v1'']"

definition rc_empty_backref :: json where
  "rc_empty_backref =
     workload ''ReplicationController'' ''app-2''
       [(''openshift.io/deployment-config.name'', JStr [])] [''int/app:v1'']"

definition rc_plain :: json where
  "rc_plain = workload ''ReplicationController'' ''db'' [] [''ext/db:9'']"

definition dc :: json where
  "dc = workload ''DeploymentConfig'' ''app'' [] [''int/app:v1'', ''ext/db:9'']"

definition example_artifacts :: "(string, json list) fmap" where
  "example_artifacts =
     fmap_of_list
       [(''kubernetes'', [svc, rc_plain]),
        (''openshift'', [image_stream, svc, rc_generated, dc])]"

text \<open>For the examples, an image is internal when its host is \<open>int\<close>.\<close>

definition example_is_internal :: "string \<Rightarrow> bool" where
  "example_is_internal s = (takeWhile (\<lambda>c. c \<noteq> CHR ''/'') s = ''int'')"

text \<open>What the constructor makes of \<open>example_artifacts\<close>.\<close>

definition example_model :: exported_project where
  "example_model =
     \<lparr>artifacts =
        fmap_of_list
          [(''kubernetes'', [svc, rc_plain]),
           (''openshift'', [image_stream_scrubbed, svc, dc])],
      images =
        [\<lparr>original_image = ''ext/db:9'', image_ref = ''ext/db:9'', internal = False\<rparr>,
         \<lparr>original_image = ''int/app:v1'', image_ref = ''int/app:v1'', internal = True\<rparr>,
         \<lparr>original_image = ''int/app:v1'', image_ref = ''int/app:v1'', internal = True\<rparr>,
         \<lparr>original_image = ''ext/db:9'', image_ref = ''ext/db:9'', internal = False\<rparr>]\<rparr>"

text \<open>A replication controller whose back-reference annotation is the empty string.\<close>

definition empty_backref_artifacts :: "(string, json list) fmap" where
  "empty_backref_artifacts =
     fmap_of_list [(''kubernetes'', []), (''openshift'', [rc_empty_backref])]"

text \<open>The project made of \<open>example_artifacts\<close> after its internal images have been given the
  host \<open>new\<close>, and what \<open>update_artifacts_images\<close> makes of it.\<close>

definition pulled_model :: exported_project where
  "pulled_model =
     example_model\<lparr>images :=
       [\<lparr>original_image = ''ext/db:9'', image_ref = ''ext/db:9'', internal = False\<rparr>,
        \<lparr>original_image = ''int/app:v1'', image_ref = ''new/app:v1'', internal = True\<rparr>,
        \<lparr>original_image = ''int/app:v1'', image_ref = ''new/app:v1'', internal = True\<rparr>,
        \<lparr>original_image = ''ext/db:9'', image_ref = ''ext/db:9'', internal = False\<rparr>]\<rparr>"

definition updated_model :: exported_project where
  "updated_model =
     pulled_model\<lparr>artifacts :=
       fmap_of_list
         [(''kubernetes'', [svc, rc_plain]),
          (''openshift'',
           [image_stream_scrubbed, svc,
            workload ''DeploymentConfig'' ''app'' [] [''new/app:v1'', ''ext/db:9'']])]\<rparr>"

text \<open>A project of one deployment config with one container of the given image, and the
  given inventory.\<close>

definition one_container_project :: "image_info list \<Rightarrow> string \<Rightarrow> exported_project" where
  "one_container_project imgs img =
     \<lparr>artifacts =
        fmap_of_list
          [(''kubernetes'', []),
           (''openshift'', [workload ''DeploymentConfig'' ''app'' [] [img]])],
      images = imgs\<rparr>"

text \<open>An inventory with two entries that have the same original image and different
  images.\<close>

definition diverging_images :: "image_info list" where
  "diverging_images =
     [\<lparr>original_image = ''a'', image_ref = ''b'', internal = True\<rparr>,
      \<lparr>original_image = ''a'', image_ref = ''c'', internal = True\<rparr>]"

definition container :: "string \<Rightarrow> json" where
  "container img = JObj (fmap_of_list [(''image'', JStr img)])"

section \<open>Properties of \<^verbatim>\<open>export_project\<close>\<close>

lemma export_loop_FormatError:
  assumes "set providers \<subseteq> {''kubernetes'', ''openshift''}"
    and "p \<in> set providers"
    and "env_kind (oc (export_args selector (the (resources_of p None)))) \<noteq> ''List''"
  shows "export_loop oc selector providers previous all_artifacts = Inl FormatError"
  using assms
proof (induction providers arbitrary: previous all_artifacts)
  case Nil
  then show ?case by simp
next
  case (Cons q qs)
  from Cons.prems(1) have q: "q = ''kubernetes'' \<or> q = ''openshift''" by simp
  then obtain rs where rs: "resources_of q previous = Some rs" "resources_of q None = Some rs"
    by (auto simp: resources_of_def)
  show ?case
  proof (cases "env_kind (oc (export_args selector rs)) = ''List''")
    case False
    with rs show ?thesis by simp
  next
    case True
    with Cons.prems(2,3) rs have "p \<in> set qs" by auto
    with Cons.IH Cons.prems(1,3) have
      "export_loop oc selector qs (Some rs) (fmupd q (env_items (oc (export_args selector rs))) all_artifacts)
         = Inl FormatError"
      by simp
    with True rs show ?thesis by simp
  qed
qed

text \<open>
  C1. Whenever the document returned for one of the providers reports a kind other than
  \<open>''List''\<close>, \<open>export_project\<close> raises the error of line 150 (\<open>FormatError\<close>); the result
  is the error alone, no project and no artifacts of the other providers. The providers
  are the two the code knows.
\<close>

theorem export_project_not_List:
  assumes "set providers \<subseteq> {''kubernetes'', ''openshift''}"
    and "p \<in> set providers"
    and "env_kind (oc (export_args selector (the (resources_of p None)))) \<noteq> ''List''"
  shows "export_project oc selector get_info providers = Inl FormatError"
  using assms export_loop_FormatError [of providers p oc selector None fmempty]
  by (simp add: export_project_def)

theorem export_project_not_List_witness:
  "set NULECULE_PROVIDERS \<subseteq> {''kubernetes'', ''openshift''} \<and>
   ''openshift'' \<in> set NULECULE_PROVIDERS \<and>
   env_kind (oc_pod (export_args None (the (resources_of ''kubernetes'' None)))) = ''List'' \<and>
   env_kind (oc_pod (export_args None (the (resources_of ''openshift'' None)))) \<noteq> ''List'' \<and>
   export_project oc_pod None (\<lambda>_. Inr []) NULECULE_PROVIDERS = Inl FormatError"
  using export_project_not_List [of NULECULE_PROVIDERS "''openshift''" oc_pod None "\<lambda>_. Inr []"]
  by (simp add: NULECULE_PROVIDERS_def oc_pod_def resources_of_def export_args_def)

section \<open>Properties of \<^verbatim>\<open>pull_images\<close> and \<^verbatim>\<open>push_images\<close>\<close>

lemma pull_loop_eq:
  "pull_loop rrh registry oi infos cmds =
     (map (\<lambda>i. fst (pull_image rrh registry oi i)) infos,
      cmds @ concat (map (\<lambda>i. snd (pull_image rrh registry oi i)) infos))"
  by (induction infos arbitrary: cmds) (auto split: prod.splits)

lemma push_loop_eq:
  "push_loop rrh parse registry oi infos cmds =
     (map (\<lambda>i. fst (push_image rrh parse registry oi i)) infos,
      cmds @ concat (map (\<lambda>i. snd (push_image rrh parse registry oi i)) infos))"
  by (induction infos arbitrary: cmds) (auto split: prod.splits)

text \<open>
  C2. \<open>pull_images\<close> runs the login and then, entry by entry in the order of the
  inventory, the commands of the loop body, and replaces each entry by the one the body
  leaves. With \<open>only_internal\<close> true the body runs no command on an entry that is not
  internal and leaves the entry as it is. On an internal entry, whatever \<open>only_internal\<close>
  is, the body replaces the image by its host substitution (and pulls the new name).
\<close>

theorem pull_images_only_internal:
  "pull_images rrh registry username password only_internal ep =
     (ep\<lparr>images := map (\<lambda>i. fst (pull_image rrh registry only_internal i)) (images ep)\<rparr>,
      docker_login registry username password #
        concat (map (\<lambda>i. snd (pull_image rrh registry only_internal i)) (images ep))) \<and>
   (\<forall>i. \<not> internal i \<longrightarrow> pull_image rrh registry True i = (i, [])) \<and>
   (\<forall>i. internal i \<longrightarrow>
      pull_image rrh registry only_internal i =
        (i\<lparr>image_ref := rrh (image_ref i) registry\<rparr>,
         [[''docker'', ''pull'', rrh (image_ref i) registry]]))"
  by (simp add: pull_images_def pull_loop_eq pull_image_def Let_def)

theorem pull_images_only_internal_witness:
  "pull_images example_replace_registry_host ''newregistry.example.com'' ''u'' ''p'' True
     example_project =
     (example_project\<lparr>images :=
        [\<lparr>original_image = ''registry.example.com/app@sha256:abcd1234'',
          image_ref = ''newregistry.example.com/app@sha256:abcd1234'', internal = True\<rparr>,
         \<lparr>original_image = ''docker.io/db:9.4'', image_ref = ''docker.io/db:9.4'',
          internal = False\<rparr>]\<rparr>,
      [docker_login ''newregistry.example.com'' ''u'' ''p'',
       [''docker'', ''pull'', ''newregistry.example.com/app@sha256:abcd1234'']])"
  using pull_images_only_internal [of example_replace_registry_host "''newregistry.example.com''"
      "''u''" "''p''" True example_project]
  by (simp add: example_project_def example_images_def example_replace_registry_host_def)

text \<open>
  C3. An entry that \<open>push_images\<close> does not skip gets as its image the name parsed from the
  host-substituted reference, a colon, and the tag: the digest without its colons when the
  parsed reference has a (non-empty) digest, the parsed tag otherwise (\<^verbatim>\<open>None\<close> is
  formatted as \<open>''None''\<close> when the reference has no tag either). The image is tagged with
  that name and the name is pushed.
\<close>

theorem push_images_digest_tag:
  assumes "push_images rrh parse registry username password only_internal ep = (ep', cmds)"
    and "k < length (images ep)"
    and "\<not> (only_internal \<and> \<not> internal (images ep ! k))"
    and "parse (rrh (image_ref (images ep ! k)) registry) = (name, tag, digest)"
    and "new_full_name = name @ '':'' @
           (case digest of
              None \<Rightarrow> format_str tag
            | Some d \<Rightarrow> if d \<noteq> [] then filter (\<lambda>c. c \<noteq> CHR '':'') d else format_str tag)"
  shows "length (images ep') = length (images ep) \<and>
         images ep' ! k = (images ep ! k)\<lparr>image_ref := new_full_name\<rparr> \<and>
         [''docker'', ''tag'', ''-f'', image_ref (images ep ! k), new_full_name] \<in> set cmds \<and>
         [''docker'', ''push'', new_full_name] \<in> set cmds"
proof -
  let ?f = "push_image rrh parse registry only_internal"
  have step: "?f (images ep ! k) =
      ((images ep ! k)\<lparr>image_ref := new_full_name\<rparr>,
       [[''docker'', ''tag'', ''-f'', image_ref (images ep ! k), new_full_name],
        [''docker'', ''push'', new_full_name]])"
    using assms(3,4,5) by (auto simp: push_image_def Let_def split: option.splits)
  from assms(1) have ep': "images ep' = map (\<lambda>i. fst (?f i)) (images ep)"
    and cmds: "set (concat (map (\<lambda>i. snd (?f i)) (images ep))) \<subseteq> set cmds"
    by (auto simp: push_images_def push_loop_eq)
  from assms(2) have
    "set (snd (?f (images ep ! k))) \<subseteq> set (concat (map (\<lambda>i. snd (?f i)) (images ep)))"
    by (auto intro!: bexI [of _ "images ep ! k"])
  with cmds step ep' assms(2) show ?thesis by auto
qed

theorem push_images_digest_tag_witness:
  "push_images example_replace_registry_host example_parse_image_name
     ''newregistry.example.com'' None None True example_project =
     (example_project\<lparr>images :=
        [\<lparr>original_image = ''registry.example.com/app@sha256:abcd1234'',
          image_ref = ''newregistry.example.com/app:sha256abcd1234'', internal = True\<rparr>,
         \<lparr>original_image = ''docker.io/db:9.4'', image_ref = ''docker.io/db:9.4'',
          internal = False\<rparr>]\<rparr>,
      [[''docker'', ''tag'', ''-f'', ''registry.example.com/app@sha256:abcd1234'',
        ''newregistry.example.com/app:sha256abcd1234''],
       [''docker'', ''push'', ''newregistry.example.com/app:sha256abcd1234'']]) \<and>
   [''docker'', ''push'', ''newregistry.example.com/app:sha256abcd1234''] \<in>
     set (snd (push_images example_replace_registry_host example_parse_image_name
                 ''newregistry.example.com'' None None True example_project))"
proof -
  let ?r = "push_images example_replace_registry_host example_parse_image_name
              ''newregistry.example.com'' None None True example_project"
  have run: "?r = (fst ?r, snd ?r)" by simp
  have k: "0 < length (images example_project)" by code_simp
  have sel: "\<not> (True \<and> \<not> internal (images example_project ! 0))" by code_simp
  have parse:
    "example_parse_image_name
       (example_replace_registry_host (image_ref (images example_project ! 0))
          ''newregistry.example.com'')
     = (''newregistry.example.com/app'', None, Some ''sha256:abcd1234'')"
    by code_simp
  have name:
    "''newregistry.example.com/app:sha256abcd1234'' = ''newregistry.example.com/app'' @ '':'' @
       (case Some ''sha256:abcd1234'' of
          None \<Rightarrow> format_str None
        | Some d \<Rightarrow> if d \<noteq> [] then filter (\<lambda>c. c \<noteq> CHR '':'') d else format_str None)"
    by code_simp
  have val: "?r = (example_project\<lparr>images :=
        [\<lparr>original_image = ''registry.example.com/app@sha256:abcd1234'',
          image_ref = ''newregistry.example.com/app:sha256abcd1234'', internal = True\<rparr>,
         \<lparr>original_image = ''docker.io/db:9.4'', image_ref = ''docker.io/db:9.4'',
          internal = False\<rparr>]\<rparr>,
      [[''docker'', ''tag'', ''-f'', ''registry.example.com/app@sha256:abcd1234'',
        ''newregistry.example.com/app:sha256abcd1234''],
       [''docker'', ''push'', ''newregistry.example.com/app:sha256abcd1234'']])"
    by code_simp
  from push_images_digest_tag [OF run k sel parse name] val show ?thesis by blast
qed

section \<open>Properties of the constructor\<close>

lemma scan_artifacts_Inr:
  "scan_artifacts get_info xs imgs = Inr r \<Longrightarrow>
     \<exists>infos. list_all2 (\<lambda>a ys. get_info a = Inr ys) (filter is_workload xs) infos \<and>
             r = imgs @ concat infos"
proof (induction xs arbitrary: imgs)
  case Nil
  then show ?case by simp
next
  case (Cons a xs)
  show ?case
  proof (cases "is_workload a")
    case True
    with Cons.prems obtain ys where ys: "get_info a = Inr ys"
      and rest: "scan_artifacts get_info xs (imgs @ ys) = Inr r"
      by (auto simp: is_workload_def split: sum.splits)
    from Cons.IH [OF rest] obtain infos
      where "list_all2 (\<lambda>a ys. get_info a = Inr ys) (filter is_workload xs) infos"
        and "r = (imgs @ ys) @ concat infos" by blast
    with True ys have
      "list_all2 (\<lambda>a ys. get_info a = Inr ys) (filter is_workload (a # xs)) (ys # infos) \<and>
       r = imgs @ concat (ys # infos)" by simp
    then show ?thesis by blast
  next
    case False
    with Cons.prems have "scan_artifacts get_info xs imgs = Inr r"
      by (auto simp: is_workload_def split: sum.splits if_splits)
    from Cons.IH [OF this] False show ?thesis by simp
  qed
qed

lemma scan_providers_Inr:
  "scan_providers get_info ps arts imgs = Inr r \<Longrightarrow>
     (\<forall>p \<in> set ps. fmlookup arts p \<noteq> None) \<and>
     (\<exists>infos. list_all2 (\<lambda>a ys. get_info a = Inr ys)
                (filter is_workload (concat (map (provider_artifacts arts) ps))) infos \<and>
              r = imgs @ concat infos)"
proof (induction ps arbitrary: imgs)
  case Nil
  then show ?case by simp
next
  case (Cons p ps)
  from Cons.prems obtain xs mid where xs: "fmlookup arts p = Some xs"
    and first: "scan_artifacts get_info xs imgs = Inr mid"
    and rest: "scan_providers get_info ps arts mid = Inr r"
    by (auto split: option.splits sum.splits)
  from scan_artifacts_Inr [OF first] obtain i1
    where i1: "list_all2 (\<lambda>a ys. get_info a = Inr ys) (filter is_workload xs) i1"
      "mid = imgs @ concat i1" by blast
  from Cons.IH [OF rest] obtain i2
    where keys: "\<forall>p \<in> set ps. fmlookup arts p \<noteq> None"
      and i2: "list_all2 (\<lambda>a ys. get_info a = Inr ys)
                (filter is_workload (concat (map (provider_artifacts arts) ps))) i2"
      "r = mid @ concat i2" by blast
  from i1 i2 xs have
    "list_all2 (\<lambda>a ys. get_info a = Inr ys)
       (filter is_workload (concat (map (provider_artifacts arts) (p # ps)))) (i1 @ i2) \<and>
     r = imgs @ concat (i1 @ i2)"
    by (simp add: provider_artifacts_def list_all2_appendI)
  with keys xs show ?case by auto
qed

lemma container_infos_Inr:
  "container_infos is_internal cs = Inr infos \<Longrightarrow>
     infos = map (\<lambda>c. \<lparr>original_image = image_of c, image_ref = image_of c,
                        internal = is_internal (image_of c)\<rparr>) cs \<and>
     (\<forall>c \<in> set cs. getitem c ''image'' = Inr (JStr (image_of c)))"
proof (induction cs arbitrary: infos)
  case Nil
  then show ?case by simp
next
  case (Cons c cs)
  from Cons.prems obtain s rest where s: "getitem c ''image'' = Inr (JStr s)"
    and rest: "container_infos is_internal cs = Inr rest"
    and infos: "infos = \<lparr>original_image = s, image_ref = s, internal = is_internal s\<rparr> # rest"
    by (auto split: sum.splits json.splits)
  from s have "image_of c = s" by (simp add: image_of_def)
  with Cons.IH [OF rest] s infos show ?case by simp
qed

lemma get_image_info_Inr:
  "get_image_info is_internal a = Inr infos \<Longrightarrow>
     get_containers a = Inr (JArr (containers_of a)) \<and>
     infos = map (\<lambda>c. \<lparr>original_image = image_of c, image_ref = image_of c,
                        internal = is_internal (image_of c)\<rparr>) (containers_of a) \<and>
     (\<forall>c \<in> set (containers_of a). getitem c ''image'' = Inr (JStr (image_of c)))"
  using container_infos_Inr [of is_internal "containers_of a" infos]
  by (auto simp: get_image_info_def containers_of_def split: sum.splits json.splits)

lemma list_all2_get_image_info:
  "list_all2 (\<lambda>a ys. get_image_info is_internal a = Inr ys) as infos \<Longrightarrow>
     concat infos = map (\<lambda>c. \<lparr>original_image = image_of c, image_ref = image_of c,
                        internal = is_internal (image_of c)\<rparr>) (concat (map containers_of as))"
  by (induction rule: list_all2_induct) (auto dest: get_image_info_Inr)

lemma init_images:
  "ExportedProject_init get_info providers arts = Inr ep \<Longrightarrow>
     scan_providers get_info providers arts [] = Inr (images ep)"
  by (auto simp: ExportedProject_init_def split: sum.splits)

lemma scrub_annotations_other:
  "scrub_annotations x = Inr y \<Longrightarrow> getitem x ''kind'' \<noteq> Inr (JStr ''ImageStream'') \<Longrightarrow> y = x"
  by (auto simp: scrub_annotations_def split: sum.splits if_splits)

lemma scrub_annotations_ImageStream:
  assumes "scrub_annotations x = Inr y" and "getitem x ''kind'' = Inr (JStr ''ImageStream'')"
  shows "getitem y ''kind'' = Inr (JStr ''ImageStream'') \<and>
         (\<exists>an. get_annotations y = Inr an \<and> \<not> truthy an)"
proof -
  from assms(2) obtain m where x: "x = JObj m" and kind: "fmlookup m ''kind'' = Some (JStr ''ImageStream'')"
    by (cases x) (auto split: option.splits)
  from assms obtain an where an: "get_annotations x = Inr an"
    by (auto simp: scrub_annotations_def split: sum.splits)
  show ?thesis
  proof (cases "truthy an")
    case False
    with assms an have "y = x" by (simp add: scrub_annotations_def)
    with assms(2) an False show ?thesis by blast
  next
    case True
    with assms an obtain md md' where md: "getitem x ''metadata'' = Inr md"
      and md': "delitem md ''annotations'' = Inr md'"
      and y: "y = with_item x ''metadata'' md'"
      by (auto simp: scrub_annotations_def split: sum.splits)
    from md' obtain mm where mm: "md = JObj mm" "md' = JObj (fmdrop ''annotations'' mm)"
      by (cases md) (auto split: option.splits)
    from y x mm have "y = JObj (fmupd ''metadata'' (JObj (fmdrop ''annotations'' mm)) m)" by simp
    with kind have "getitem y ''kind'' = Inr (JStr ''ImageStream'')"
      and "get_annotations y = Inr (JObj fmempty)"
      by (simp_all add: get_annotations_def)
    then show ?thesis by auto
  qed
qed

lemma scrub_annotations_kind:
  "scrub_annotations x = Inr y \<Longrightarrow> getitem y ''kind'' = getitem x ''kind''"
  using scrub_annotations_other [of x y] scrub_annotations_ImageStream [of x y]
  by (cases "getitem x ''kind'' = Inr (JStr ''ImageStream'')") auto

lemma scrub_annotations_created_by_dc:
  assumes "scrub_annotations x = Inr y"
  shows "created_by_dc y = created_by_dc x"
proof (cases "getitem x ''kind'' = Inr (JStr ''ImageStream'')")
  case True
  with scrub_annotations_kind [OF assms] show ?thesis by (simp add: created_by_dc_def)
next
  case False
  with scrub_annotations_other [OF assms] show ?thesis by simp
qed

lemma scrub_loop_Inr:
  "scrub_loop xs = Inr ys \<Longrightarrow> list_all2 (\<lambda>x y. scrub_annotations x = Inr y) xs ys"
  by (induction xs arbitrary: ys) (auto split: sum.splits)

lemma scrub_loop_total:
  "list_all2 (\<lambda>x y. scrub_annotations x = Inr y) xs ys \<Longrightarrow> scrub_loop xs = Inr ys"
  by (induction rule: list_all2_induct) auto

lemma remove_loop_Inr:
  assumes "remove_loop ys cur = Inr r"
    and "mset (filter (\<lambda>x. created_by_dc x = Inr True) cur) =
         mset (filter (\<lambda>x. created_by_dc x = Inr True) ys)"
  shows "r = filter (\<lambda>x. created_by_dc x \<noteq> Inr True) cur \<and>
         (\<forall>y \<in> set ys. \<exists>b. created_by_dc y = Inr b)"
  using assms
proof (induction ys arbitrary: cur)
  case Nil
  then have "filter (\<lambda>x. created_by_dc x = Inr True) cur = []" by simp
  then have "filter (\<lambda>x. created_by_dc x \<noteq> Inr True) cur = cur"
    by (simp add: filter_empty_conv)
  with Nil show ?case by simp
next
  case (Cons y ys)
  let ?P = "\<lambda>x. created_by_dc x = Inr True"
  from Cons.prems(1) obtain b where b: "created_by_dc y = Inr b"
    by (auto split: sum.splits)
  show ?case
  proof (cases b)
    case False
    with b Cons.prems have "remove_loop ys cur = Inr r"
      and "mset (filter ?P cur) = mset (filter ?P ys)" by simp_all
    from Cons.IH [OF this] b show ?thesis by simp
  next
    case True
    with b Cons.prems(2) have "y \<in># mset (filter ?P cur)" by simp
    then have mem: "y \<in> set cur" by simp
    with b True Cons.prems(1) have rest: "remove_loop ys (remove1 y cur) = Inr r"
      by (simp add: list_remove_def)
    have "mset (filter ?P (remove1 y cur)) = mset (filter ?P cur) - {#y#}"
      by (simp add: filter_remove1)
    also from b True Cons.prems(2) have "\<dots> = mset (filter ?P ys)" by simp
    finally have "mset (filter ?P (remove1 y cur)) = mset (filter ?P ys)" .
    from Cons.IH [OF rest this]
    have r: "r = filter (\<lambda>x. created_by_dc x \<noteq> Inr True) (remove1 y cur)"
      and ok: "\<forall>y \<in> set ys. \<exists>b. created_by_dc y = Inr b" by simp_all
    from b True have "remove1 y (filter (\<lambda>x. created_by_dc x \<noteq> Inr True) cur) =
        filter (\<lambda>x. created_by_dc x \<noteq> Inr True) cur"
      by (simp add: remove1_idem)
    with r b ok show ?thesis by (simp add: filter_remove1)
  qed
qed

lemma remove_loop_total:
  assumes "\<forall>y \<in> set ys. \<exists>b. created_by_dc y = Inr b"
    and "mset (filter (\<lambda>x. created_by_dc x = Inr True) cur) =
         mset (filter (\<lambda>x. created_by_dc x = Inr True) ys)"
  shows "\<exists>r. remove_loop ys cur = Inr r"
  using assms
proof (induction ys arbitrary: cur)
  case Nil
  then show ?case by simp
next
  case (Cons y ys)
  let ?P = "\<lambda>x. created_by_dc x = Inr True"
  from Cons.prems(1) obtain b where b: "created_by_dc y = Inr b" by auto
  show ?case
  proof (cases b)
    case False
    with b Cons.prems have "\<forall>y \<in> set ys. \<exists>b. created_by_dc y = Inr b"
      and "mset (filter ?P cur) = mset (filter ?P ys)" by simp_all
    from Cons.IH [OF this] b False show ?thesis by simp
  next
    case True
    with b Cons.prems(2) have "y \<in># mset (filter ?P cur)" by simp
    then have mem: "y \<in> set cur" by simp
    have "mset (filter ?P (remove1 y cur)) = mset (filter ?P cur) - {#y#}"
      by (simp add: filter_remove1)
    also from b True Cons.prems(2) have "\<dots> = mset (filter ?P ys)" by simp
    finally have "mset (filter ?P (remove1 y cur)) = mset (filter ?P ys)" .
    with Cons.IH [of "remove1 y cur"] Cons.prems(1)
    obtain r where "remove_loop ys (remove1 y cur) = Inr r" by auto
    with b True mem show ?thesis by (simp add: list_remove_def)
  qed
qed

lemma filter_kept:
  "\<forall>y \<in> set ys. \<exists>b. created_by_dc y = Inr b \<Longrightarrow>
     filter (\<lambda>x. created_by_dc x \<noteq> Inr True) ys = filter (\<lambda>x. created_by_dc x = Inr False) ys"
  by (rule filter_cong) auto

lemma remove_openshift_objects_Inr:
  assumes "remove_openshift_objects arts = Inr arts'"
  shows "\<exists>ys. fmlookup arts ''openshift'' = Some ys \<and>
              (\<forall>y \<in> set ys. \<exists>b. created_by_dc y = Inr b) \<and>
              arts' = fmupd ''openshift'' (filter (\<lambda>x. created_by_dc x = Inr False) ys) arts"
proof -
  from assms obtain ys r where ys: "fmlookup arts ''openshift'' = Some ys"
    and r: "remove_loop ys ys = Inr r" and arts': "arts' = fmupd ''openshift'' r arts"
    by (auto simp: remove_openshift_objects_def split: option.splits sum.splits)
  from remove_loop_Inr [OF r] have "r = filter (\<lambda>x. created_by_dc x \<noteq> Inr True) ys"
    and ok: "\<forall>y \<in> set ys. \<exists>b. created_by_dc y = Inr b" by simp_all
  with filter_kept [OF ok] ys arts' show ?thesis by simp
qed

lemma remove_imagestream_annotations_Inr:
  assumes "remove_imagestream_annotations arts = Inr arts'"
  shows "\<exists>xs ys. fmlookup arts ''openshift'' = Some xs \<and>
              list_all2 (\<lambda>x y. scrub_annotations x = Inr y) xs ys \<and>
              arts' = fmupd ''openshift'' ys arts"
  using assms scrub_loop_Inr
  by (auto simp: remove_imagestream_annotations_def split: option.splits sum.splits)

lemma list_all2_filter_both:
  "list_all2 R xs ys \<Longrightarrow> (\<And>x y. R x y \<Longrightarrow> P x = Q y) \<Longrightarrow>
     list_all2 R (filter P xs) (filter Q ys)"
  by (induction rule: list_all2_induct) auto

lemma list_all2_left_witness:
  "list_all2 R xs ys \<Longrightarrow> x \<in> set xs \<Longrightarrow> \<exists>y \<in> set ys. R x y"
  by (induction rule: list_all2_induct) auto

lemma init_parts:
  assumes "ExportedProject_init get_info providers arts = Inr ep"
  shows "\<exists>xs ys. scan_providers get_info providers arts [] = Inr (images ep) \<and>
           fmlookup arts ''openshift'' = Some xs \<and>
           list_all2 (\<lambda>x y. scrub_annotations x = Inr y) xs ys \<and>
           remove_imagestream_annotations arts = Inr (fmupd ''openshift'' ys arts) \<and>
           (\<forall>y \<in> set ys. \<exists>b. created_by_dc y = Inr b) \<and>
           remove_openshift_objects (fmupd ''openshift'' ys arts) = Inr (artifacts ep) \<and>
           artifacts ep = fmupd ''openshift'' (filter (\<lambda>y. created_by_dc y = Inr False) ys) arts"
proof -
  from assms obtain imgs arts1 arts2 where imgs: "scan_providers get_info providers arts [] = Inr imgs"
    and a1: "remove_imagestream_annotations arts = Inr arts1"
    and a2: "remove_openshift_objects arts1 = Inr arts2"
    and ep: "ep = \<lparr>artifacts = arts2, images = imgs\<rparr>"
    by (auto simp: ExportedProject_init_def split: sum.splits)
  from remove_imagestream_annotations_Inr [OF a1] obtain xs ys
    where xs: "fmlookup arts ''openshift'' = Some xs"
      and sc: "list_all2 (\<lambda>x y. scrub_annotations x = Inr y) xs ys"
      and arts1: "arts1 = fmupd ''openshift'' ys arts" by blast
  from remove_openshift_objects_Inr [OF a2] arts1
  have ok: "\<forall>y \<in> set ys. \<exists>b. created_by_dc y = Inr b"
    and arts2: "arts2 = fmupd ''openshift'' (filter (\<lambda>y. created_by_dc y = Inr False) ys) arts"
    by auto
  from imgs a1 a2 ep xs sc arts1 ok arts2 show ?thesis by auto
qed

text \<open>
  What the pruning does. After a successful construction the openshift list is the list
  left by the scrubbing, in the same order, without the objects for which the test of
  lines 189-193 holds: the replication controllers whose
  \<^verbatim>\<open>openshift.io/deployment-config.name\<close> annotation is there and true in Python's
  sense. Nothing else is removed, and for no object of the result the test holds.
\<close>

lemma init_prunes_truthy:
  assumes "ExportedProject_init get_info providers arts = Inr ep"
  shows "\<exists>arts1 ys.
           remove_imagestream_annotations arts = Inr arts1 \<and>
           fmlookup arts1 ''openshift'' = Some ys \<and>
           fmlookup (artifacts ep) ''openshift'' =
             Some (filter (\<lambda>y. created_by_dc y = Inr False) ys) \<and>
           (\<forall>y \<in> set ys. created_by_dc y \<noteq> Inr False \<longrightarrow> created_by_dc y = Inr True) \<and>
           (\<forall>z \<in> set (provider_artifacts (artifacts ep) ''openshift''). created_by_dc z = Inr False)"
proof -
  from init_parts [OF assms] obtain xs ys
    where a1: "remove_imagestream_annotations arts = Inr (fmupd ''openshift'' ys arts)"
      and ok: "\<forall>y \<in> set ys. \<exists>b. created_by_dc y = Inr b"
      and res: "artifacts ep = fmupd ''openshift'' (filter (\<lambda>y. created_by_dc y = Inr False) ys) arts"
    by blast
  from ok have "\<forall>y \<in> set ys. created_by_dc y \<noteq> Inr False \<longrightarrow> created_by_dc y = Inr True"
    by (metis (full_types))
  with a1 res show ?thesis by (auto simp: provider_artifacts_def)
qed

text \<open>
  C6. After construction the openshift list should hold no replication controller whose
  annotations carry the deployment-config back-reference, and the comment of lines
  190-191 says that the code checks that the annotation exists. Line 193 tests the
  truth of its value instead: a replication controller that carries the annotation with
  the empty string as its value is not removed. The constructor is evaluated here on a
  collection whose openshift list is that one replication controller; it returns the
  collection as it is.
\<close>

theorem init_keeps_empty_backref:
  "ExportedProject_init (get_image_info example_is_internal) NULECULE_PROVIDERS
     empty_backref_artifacts =
     Inr \<lparr>artifacts = empty_backref_artifacts,
          images = [\<lparr>original_image = ''int/app:v1'', image_ref = ''int/app:v1'',
                     internal = True\<rparr>]\<rparr> \<and>
   fmlookup empty_backref_artifacts ''openshift'' = Some [rc_empty_backref] \<and>
   getitem rc_empty_backref ''kind'' = Inr (JStr ''ReplicationController'') \<and>
   get_annotations rc_empty_backref =
     Inr (JObj (fmap_of_list [(''openshift.io/deployment-config.name'', JStr [])]))"
  by code_simp

lemma created_by_dc_True_iff:
  "created_by_dc obj = Inr True \<longleftrightarrow>
     getitem obj ''kind'' = Inr (JStr ''ReplicationController'') \<and>
     (\<exists>an v. get_annotations obj = Inr an \<and>
        dict_get an ''openshift.io/deployment-config.name'' (JObj fmempty) = Inr v \<and> truthy v)"
  by (auto simp: created_by_dc_def split: sum.splits)

text \<open>
  C7. After a successful construction the openshift list is made, in order, of the objects
  of the given list, where each image stream has been replaced by an image stream whose
  \<^verbatim>\<open>obj.get("metadata", {}).get("annotations", {})\<close> is false in Python's sense (the
  key is gone, or its value was empty already) and every object of another kind is the
  object itself; the pruning then only drops objects. The lists of the other providers
  are the given ones.
\<close>

theorem init_scrubs_image_streams:
  assumes "ExportedProject_init get_info providers arts = Inr ep"
  shows "\<exists>xs ys.
           fmlookup arts ''openshift'' = Some xs \<and>
           list_all2 (\<lambda>x y.
              if getitem x ''kind'' = Inr (JStr ''ImageStream'')
              then getitem y ''kind'' = Inr (JStr ''ImageStream'') \<and>
                   (\<exists>an. get_annotations y = Inr an \<and> \<not> truthy an)
              else y = x) xs ys \<and>
           fmlookup (artifacts ep) ''openshift'' =
             Some (filter (\<lambda>y. created_by_dc y = Inr False) ys) \<and>
           (\<forall>p. p \<noteq> ''openshift'' \<longrightarrow> fmlookup (artifacts ep) p = fmlookup arts p)"
proof -
  from init_parts [OF assms] obtain xs ys
    where xs: "fmlookup arts ''openshift'' = Some xs"
      and sc: "list_all2 (\<lambda>x y. scrub_annotations x = Inr y) xs ys"
      and res: "artifacts ep = fmupd ''openshift'' (filter (\<lambda>y. created_by_dc y = Inr False) ys) arts"
    by blast
  from sc have "list_all2 (\<lambda>x y.
              if getitem x ''kind'' = Inr (JStr ''ImageStream'')
              then getitem y ''kind'' = Inr (JStr ''ImageStream'') \<and>
                   (\<exists>an. get_annotations y = Inr an \<and> \<not> truthy an)
              else y = x) xs ys"
    by (rule list_all2_mono)
       (auto dest: scrub_annotations_ImageStream scrub_annotations_other)
  with xs res show ?thesis by (intro exI [of _ xs] exI [of _ ys]) simp
qed

theorem init_scrubs_image_streams_witness:
  "ExportedProject_init (get_image_info example_is_internal) NULECULE_PROVIDERS example_artifacts
     = Inr example_model \<and>
   get_annotations image_stream = Inr (JObj (fmap_of_list [(''a'', JStr ''b'')])) \<and>
   get_annotations image_stream_scrubbed = Inr (JObj fmempty) \<and>
   (\<exists>xs ys.
      fmlookup example_artifacts ''openshift'' = Some xs \<and>
      list_all2 (\<lambda>x y.
         if getitem x ''kind'' = Inr (JStr ''ImageStream'')
         then getitem y ''kind'' = Inr (JStr ''ImageStream'') \<and>
              (\<exists>an. get_annotations y = Inr an \<and> \<not> truthy an)
         else y = x) xs ys \<and>
      fmlookup (artifacts example_model) ''openshift'' =
        Some (filter (\<lambda>y. created_by_dc y = Inr False) ys))"
proof -
  have run: "ExportedProject_init (get_image_info example_is_internal) NULECULE_PROVIDERS
      example_artifacts = Inr example_model"
    by code_simp
  have a: "get_annotations image_stream = Inr (JObj (fmap_of_list [(''a'', JStr ''b'')]))"
    by code_simp
  have b: "get_annotations image_stream_scrubbed = Inr (JObj fmempty)"
    by code_simp
  from init_scrubs_image_streams [OF run] run a b show ?thesis by blast
qed

text \<open>
  C8. With \<open>get_image_info\<close> as the spec describes it, the images of a successfully
  constructed project are, in this order, one entry per container of the workload
  artifacts (replication controllers and deployment configs) of the given collection,
  provider by provider in the order of the provider list, artifact by artifact, container
  by container; their number is the total number of these containers. The last three
  conjuncts say that the observers \<open>provider_artifacts\<close>, \<open>containers_of\<close> and \<open>image_of\<close>
  read what the code read.
\<close>

theorem init_image_inventory:
  assumes "ExportedProject_init (get_image_info is_internal) providers arts = Inr ep"
    and "workloads = filter is_workload (concat (map (provider_artifacts arts) providers))"
  shows "images ep =
           map (\<lambda>c. \<lparr>original_image = image_of c, image_ref = image_of c,
                      internal = is_internal (image_of c)\<rparr>)
             (concat (map containers_of workloads)) \<and>
         length (images ep) = sum_list (map (\<lambda>a. length (containers_of a)) workloads) \<and>
         (\<forall>p \<in> set providers. fmlookup arts p \<noteq> None) \<and>
         (\<forall>a \<in> set workloads. get_containers a = Inr (JArr (containers_of a))) \<and>
         (\<forall>c \<in> set (concat (map containers_of workloads)).
            getitem c ''image'' = Inr (JStr (image_of c)))"
proof -
  from init_images [OF assms(1)]
  have scan: "scan_providers (get_image_info is_internal) providers arts [] = Inr (images ep)" .
  from scan_providers_Inr [OF scan] assms(2) obtain infos
    where keys: "\<forall>p \<in> set providers. fmlookup arts p \<noteq> None"
      and all2: "list_all2 (\<lambda>a ys. get_image_info is_internal a = Inr ys) workloads infos"
      and imgs: "images ep = concat infos" by auto
  from list_all2_get_image_info [OF all2] imgs
  have eq: "images ep =
           map (\<lambda>c. \<lparr>original_image = image_of c, image_ref = image_of c,
                      internal = is_internal (image_of c)\<rparr>)
             (concat (map containers_of workloads))" by simp
  then have len: "length (images ep) = sum_list (map (\<lambda>a. length (containers_of a)) workloads)"
    by (simp add: length_concat comp_def)
  from all2 have each: "\<forall>a \<in> set workloads. \<exists>ys. get_image_info is_internal a = Inr ys"
    by (auto simp: list_all2_conv_all_nth in_set_conv_nth)
  then have c1: "\<forall>a \<in> set workloads. get_containers a = Inr (JArr (containers_of a))"
    by (auto dest: get_image_info_Inr)
  from each have c2: "\<forall>c \<in> set (concat (map containers_of workloads)).
            getitem c ''image'' = Inr (JStr (image_of c))"
    by (auto dest!: get_image_info_Inr bspec)
  from eq len keys c1 c2 show ?thesis by blast
qed

theorem init_image_inventory_witness:
  "ExportedProject_init (get_image_info example_is_internal) NULECULE_PROVIDERS example_artifacts
     = Inr example_model \<and>
   filter is_workload (concat (map (provider_artifacts example_artifacts) NULECULE_PROVIDERS))
     = [rc_plain, rc_generated, dc] \<and>
   length (images example_model) = 4 \<and>
   images example_model =
     map (\<lambda>c. \<lparr>original_image = image_of c, image_ref = image_of c,
                internal = example_is_internal (image_of c)\<rparr>)
       (concat (map containers_of [rc_plain, rc_generated, dc]))"
proof -
  have run: "ExportedProject_init (get_image_info example_is_internal) NULECULE_PROVIDERS
      example_artifacts = Inr example_model"
    by code_simp
  have w: "[rc_plain, rc_generated, dc] =
      filter is_workload (concat (map (provider_artifacts example_artifacts) NULECULE_PROVIDERS))"
    by code_simp
  have l: "length (images example_model) = 4" by code_simp
  from init_image_inventory [OF run w] run w l show ?thesis by simp
qed

lemma init_order_forward:
  assumes "ExportedProject_init get_info providers arts = Inr ep"
  shows "scan_providers get_info providers arts [] = Inr (images ep) \<and>
         (\<exists>arts1. remove_imagestream_annotations arts = Inr arts1 \<and>
                   remove_openshift_objects arts1 = Inr (artifacts ep)) \<and>
         ExportedProject_init_spec_order get_info providers arts = Inr ep"
proof -
  let ?keep = "\<lambda>y. created_by_dc y = Inr False"
  from init_parts [OF assms] obtain xs ys
    where scan: "scan_providers get_info providers arts [] = Inr (images ep)"
      and xs: "fmlookup arts ''openshift'' = Some xs"
      and sc: "list_all2 (\<lambda>x y. scrub_annotations x = Inr y) xs ys"
      and a1: "remove_imagestream_annotations arts = Inr (fmupd ''openshift'' ys arts)"
      and ok: "\<forall>y \<in> set ys. \<exists>b. created_by_dc y = Inr b"
      and a2: "remove_openshift_objects (fmupd ''openshift'' ys arts) = Inr (artifacts ep)"
      and res: "artifacts ep = fmupd ''openshift'' (filter ?keep ys) arts"
    by blast
  have okx: "\<forall>x \<in> set xs. \<exists>b. created_by_dc x = Inr b"
  proof
    fix x assume "x \<in> set xs"
    with sc obtain y where "y \<in> set ys" and "scrub_annotations x = Inr y"
      by (blast dest: list_all2_left_witness)
    with ok scrub_annotations_created_by_dc [of x y] show "\<exists>b. created_by_dc x = Inr b"
      by metis
  qed
  from remove_loop_total [OF okx, of xs] obtain r where r: "remove_loop xs xs = Inr r" by auto
  from remove_loop_Inr [OF r] filter_kept [OF okx] have "r = filter ?keep xs" by simp
  with r xs have p1: "remove_openshift_objects arts = Inr (fmupd ''openshift'' (filter ?keep xs) arts)"
    by (simp add: remove_openshift_objects_def)
  from sc have "list_all2 (\<lambda>x y. scrub_annotations x = Inr y) (filter ?keep xs) (filter ?keep ys)"
    by (rule list_all2_filter_both) (simp add: scrub_annotations_created_by_dc)
  then have "scrub_loop (filter ?keep xs) = Inr (filter ?keep ys)" by (rule scrub_loop_total)
  then have p2: "remove_imagestream_annotations (fmupd ''openshift'' (filter ?keep xs) arts) =
      Inr (fmupd ''openshift'' (filter ?keep ys) arts)"
    by (simp add: remove_imagestream_annotations_def)
  from scan p1 p2 res have "ExportedProject_init_spec_order get_info providers arts =
      Inr \<lparr>artifacts = artifacts ep, images = images ep\<rparr>"
    by (simp add: ExportedProject_init_spec_order_def)
  with scan a1 a2 show ?thesis by auto
qed

lemma list_all2_right_witness:
  "list_all2 R xs ys \<Longrightarrow> y \<in> set ys \<Longrightarrow> \<exists>x \<in> set xs. R x y"
  by (induction rule: list_all2_induct) auto

lemma scrub_annotations_pruned:
  "created_by_dc x = Inr True \<Longrightarrow> scrub_annotations x = Inr x"
  by (auto simp: created_by_dc_def scrub_annotations_def split: sum.splits if_splits)

lemma scrub_loop_total_each:
  "\<forall>x \<in> set xs. \<exists>y. scrub_annotations x = Inr y \<Longrightarrow> \<exists>ys. scrub_loop xs = Inr ys"
  by (induction xs) auto

lemma init_order_converse:
  assumes "ExportedProject_init_spec_order get_info providers arts = Inr ep"
  shows "\<exists>ep2. ExportedProject_init get_info providers arts = Inr ep2"
proof -
  let ?keep = "\<lambda>y. created_by_dc y = Inr False"
  from assms obtain imgs arts1 arts2
    where scan: "scan_providers get_info providers arts [] = Inr imgs"
      and p: "remove_openshift_objects arts = Inr arts1"
      and s: "remove_imagestream_annotations arts1 = Inr arts2"
    by (auto simp: ExportedProject_init_spec_order_def split: sum.splits)
  from remove_openshift_objects_Inr [OF p] obtain xs
    where xs: "fmlookup arts ''openshift'' = Some xs"
      and ok: "\<forall>x \<in> set xs. \<exists>b. created_by_dc x = Inr b"
      and arts1: "arts1 = fmupd ''openshift'' (filter ?keep xs) arts" by blast
  from remove_imagestream_annotations_Inr [OF s] arts1 obtain zs
    where zs: "list_all2 (\<lambda>x y. scrub_annotations x = Inr y) (filter ?keep xs) zs" by auto
  have "\<forall>x \<in> set xs. \<exists>y. scrub_annotations x = Inr y"
  proof
    fix x assume x: "x \<in> set xs"
    with ok obtain b where b: "created_by_dc x = Inr b" by blast
    show "\<exists>y. scrub_annotations x = Inr y"
    proof (cases b)
      case True
      with b have "created_by_dc x = Inr True" by simp
      from scrub_annotations_pruned [OF this] show ?thesis by blast
    next
      case False
      with b x have "x \<in> set (filter ?keep xs)" by simp
      from list_all2_left_witness [OF zs this] show ?thesis by blast
    qed
  qed
  from scrub_loop_total_each [OF this] obtain ys where ys: "scrub_loop xs = Inr ys" by blast
  with xs have a1: "remove_imagestream_annotations arts = Inr (fmupd ''openshift'' ys arts)"
    by (simp add: remove_imagestream_annotations_def)
  from scrub_loop_Inr [OF ys]
  have all2: "list_all2 (\<lambda>x y. scrub_annotations x = Inr y) xs ys" .
  have oky: "\<forall>y \<in> set ys. \<exists>b. created_by_dc y = Inr b"
  proof
    fix y assume "y \<in> set ys"
    from list_all2_right_witness [OF all2 this] obtain x
      where "x \<in> set xs" and "scrub_annotations x = Inr y" by blast
    with ok scrub_annotations_created_by_dc [of x y] show "\<exists>b. created_by_dc y = Inr b"
      by metis
  qed
  from remove_loop_total [OF oky, of ys] obtain r where "remove_loop ys ys = Inr r" by auto
  then have "remove_openshift_objects (fmupd ''openshift'' ys arts) =
      Inr (fmupd ''openshift'' r (fmupd ''openshift'' ys arts))"
    by (simp add: remove_openshift_objects_def)
  with scan a1 show ?thesis by (simp add: ExportedProject_init_def)
qed

lemma init_inventory_of_input:
  assumes "ExportedProject_init get_info providers arts = Inr ep"
    and "p \<in> set providers" and "a \<in> set (provider_artifacts arts p)" and "is_workload a"
  shows "\<exists>infos. get_info a = Inr infos \<and> set infos \<subseteq> set (images ep)"
proof -
  let ?ws = "filter is_workload (concat (map (provider_artifacts arts) providers))"
  from init_images [OF assms(1)] scan_providers_Inr [of get_info providers arts "[]" "images ep"]
  obtain infos where all2: "list_all2 (\<lambda>a ys. get_info a = Inr ys) ?ws infos"
    and imgs: "images ep = concat infos" by auto
  from assms(2,3,4) have "a \<in> set ?ws" by auto
  from list_all2_left_witness [OF all2 this] obtain ys
    where "ys \<in> set infos" and "get_info a = Inr ys" by blast
  with imgs show ?thesis by auto
qed

text \<open>
  C9. The constructor derives the images from the collection it is given, so before any
  pruning: every workload artifact of the given collection, also a replication controller
  that is pruned afterwards, has its entries in the inventory. The code then scrubs the
  annotations of the image streams and prunes last, where the spec prunes before it
  scrubs. The two orders cannot be told apart by the project they construct: the
  constructor returns a project exactly when the derivations in the order of the spec
  return it.
\<close>

theorem init_order:
  "(ExportedProject_init get_info providers arts = Inr ep \<longleftrightarrow>
      ExportedProject_init_spec_order get_info providers arts = Inr ep) \<and>
   (ExportedProject_init get_info providers arts = Inr ep \<longrightarrow>
      scan_providers get_info providers arts [] = Inr (images ep) \<and>
      (\<forall>p \<in> set providers. \<forall>a \<in> set (provider_artifacts arts p). is_workload a \<longrightarrow>
         (\<exists>infos. get_info a = Inr infos \<and> set infos \<subseteq> set (images ep))))"
proof -
  have fwd: "ExportedProject_init get_info providers arts = Inr ep \<Longrightarrow>
      ExportedProject_init_spec_order get_info providers arts = Inr ep"
    using init_order_forward [of get_info providers arts ep] by blast
  have bwd: "ExportedProject_init_spec_order get_info providers arts = Inr ep \<Longrightarrow>
      ExportedProject_init get_info providers arts = Inr ep"
  proof -
    assume spec: "ExportedProject_init_spec_order get_info providers arts = Inr ep"
    from init_order_converse [OF spec] obtain ep2
      where ep2: "ExportedProject_init get_info providers arts = Inr ep2" by blast
    from init_order_forward [OF ep2]
    have "ExportedProject_init_spec_order get_info providers arts = Inr ep2" by blast
    with spec have "ep2 = ep" by simp
    with ep2 show ?thesis by simp
  qed
  have inv: "ExportedProject_init get_info providers arts = Inr ep \<longrightarrow>
      scan_providers get_info providers arts [] = Inr (images ep) \<and>
      (\<forall>p \<in> set providers. \<forall>a \<in> set (provider_artifacts arts p). is_workload a \<longrightarrow>
         (\<exists>infos. get_info a = Inr infos \<and> set infos \<subseteq> set (images ep)))"
  proof (intro impI conjI ballI)
    assume init: "ExportedProject_init get_info providers arts = Inr ep"
    from init_images [OF init]
    show "scan_providers get_info providers arts [] = Inr (images ep)" .
    fix p a assume "p \<in> set providers" "a \<in> set (provider_artifacts arts p)" "is_workload a"
    from init_inventory_of_input [OF init this]
    show "\<exists>infos. get_info a = Inr infos \<and> set infos \<subseteq> set (images ep)" .
  qed
  from fwd bwd have "ExportedProject_init get_info providers arts = Inr ep \<longleftrightarrow>
      ExportedProject_init_spec_order get_info providers arts = Inr ep" by blast
  from this inv show ?thesis by (rule conjI)
qed

theorem init_order_witness:
  "ExportedProject_init (get_image_info example_is_internal) NULECULE_PROVIDERS example_artifacts
     = Inr example_model \<and>
   ExportedProject_init_spec_order (get_image_info example_is_internal) NULECULE_PROVIDERS
     example_artifacts = Inr example_model \<and>
   rc_generated \<in> set (provider_artifacts example_artifacts ''openshift'') \<and>
   rc_generated \<notin> set (provider_artifacts (artifacts example_model) ''openshift'') \<and>
   (\<exists>infos. get_image_info example_is_internal rc_generated = Inr infos \<and>
            set infos \<subseteq> set (images example_model)) \<and>
   get_image_info example_is_internal rc_generated =
     Inr [\<lparr>original_image = ''int/app:v1'', image_ref = ''int/app:v1'', internal = True\<rparr>]"
proof -
  have run: "ExportedProject_init (get_image_info example_is_internal) NULECULE_PROVIDERS
      example_artifacts = Inr example_model"
    by code_simp
  have p: "''openshift'' \<in> set NULECULE_PROVIDERS" by code_simp
  have a: "rc_generated \<in> set (provider_artifacts example_artifacts ''openshift'')"
    by code_simp
  have w: "is_workload rc_generated" by code_simp
  have gone: "rc_generated \<notin> set (provider_artifacts (artifacts example_model) ''openshift'')"
    by code_simp
  have b: "get_image_info example_is_internal rc_generated =
     Inr [\<lparr>original_image = ''int/app:v1'', image_ref = ''int/app:v1'', internal = True\<rparr>]"
    by code_simp
  note inst = init_order [of "get_image_info example_is_internal" NULECULE_PROVIDERS
      example_artifacts example_model]
  from inst run have spec: "ExportedProject_init_spec_order (get_image_info example_is_internal)
      NULECULE_PROVIDERS example_artifacts = Inr example_model" by blast
  from inst run p a w have inv: "\<exists>infos. get_image_info example_is_internal rc_generated = Inr infos \<and>
      set infos \<subseteq> set (images example_model)" by blast
  show ?thesis by (intro conjI) (rule run spec a gone inv b)+
qed

section \<open>Properties of \<^verbatim>\<open>update_artifacts_images\<close>\<close>

lemma fmupd_same: "fmlookup m k = Some v \<Longrightarrow> fmupd k v m = m"
  by (rule fmap_ext) auto

lemma rewrite_image_append:
  "rewrite_image (xs @ ys) v = rewrite_image ys (rewrite_image xs v)"
  by (induction xs arbitrary: v) auto

lemma rewrite_image_no_match:
  "\<forall>e \<in> set imgs. JStr (original_image e) \<noteq> v \<Longrightarrow> rewrite_image imgs v = v"
  by (induction imgs) auto


lemma rewrite_image_stable:
  "\<forall>x \<in> set imgs. original_image x = b \<longrightarrow> image_ref x = b \<Longrightarrow>
     rewrite_image imgs (JStr b) = JStr b"
  by (induction imgs) auto


lemma rewrite_image_agree:
  assumes "\<forall>x \<in> set imgs. original_image x = s \<longrightarrow> image_ref x = b"
    and "\<forall>x \<in> set imgs. original_image x = b \<longrightarrow> image_ref x = b"
    and "\<exists>x \<in> set imgs. original_image x = s"
  shows "rewrite_image imgs (JStr s) = JStr b"
  using assms
proof (induction imgs)
  case Nil
  then show ?case by simp
next
  case (Cons i imgs)
  show ?case
  proof (cases "original_image i = s")
    case True
    with Cons.prems(1) have "image_ref i = b" by simp
    moreover from Cons.prems(2) have "rewrite_image imgs (JStr b) = JStr b"
      by (intro rewrite_image_stable) simp
    ultimately show ?thesis using True by simp
  next
    case False
    with Cons show ?thesis by simp
  qed
qed

lemma rewrite_image_first:
  assumes "\<forall>x \<in> set pre. original_image x \<noteq> s"
    and "original_image e = s"
    and "\<forall>x \<in> set post. original_image x \<noteq> image_ref e"
  shows "rewrite_image (pre @ e # post) (JStr s) = JStr (image_ref e)"
proof -
  from assms(1) have "rewrite_image pre (JStr s) = JStr s"
    by (intro rewrite_image_no_match) auto
  moreover from assms(3) have "rewrite_image post (JStr (image_ref e)) = JStr (image_ref e)"
    by (intro rewrite_image_no_match) auto
  ultimately show ?thesis using assms(2) by (simp add: rewrite_image_append)
qed

text \<open>The reads of the log call that depend on the artifact alone.\<close>

lemma log_arguments_JObj:
  "fmlookup m ''image'' = Some v \<Longrightarrow>
     log_arguments a (JObj m) =
       (case getitem a ''kind'' of
          Inl e \<Rightarrow> Inl e
        | Inr k \<Rightarrow>
            (case getitem a ''metadata'' of
               Inl e \<Rightarrow> Inl e
             | Inr md \<Rightarrow>
                 (case getitem md ''name'' of
                    Inl e \<Rightarrow> Inl e
                  | Inr n \<Rightarrow> Inr (v, k, n))))"
  by (simp add: log_arguments_def)

lemma log_arguments_same_error:
  "fmlookup m ''image'' = Some v \<Longrightarrow> fmlookup m' ''image'' = Some v' \<Longrightarrow>
     log_arguments a (JObj m) = Inl err \<Longrightarrow> log_arguments a (JObj m') = Inl err"
  by (auto simp: log_arguments_JObj split: sum.splits)

lemma log_arguments_same_ok:
  "fmlookup m ''image'' = Some v \<Longrightarrow> fmlookup m' ''image'' = Some v' \<Longrightarrow>
     log_arguments a (JObj m) = Inr args \<Longrightarrow> \<exists>args'. log_arguments a (JObj m') = Inr args'"
  by (auto simp: log_arguments_JObj split: sum.splits)

lemma update_container_logged:
  assumes "fmlookup m ''image'' = Some v" and "log_arguments a (JObj m) = Inr args"
  shows "update_container a imgs (JObj m) = Inr (JObj (fmupd ''image'' (rewrite_image imgs v) m))"
  using assms
proof (induction imgs arbitrary: m v args)
  case Nil
  then show ?case by (simp add: fmupd_same)
next
  case (Cons i imgs)
  show ?case
  proof (cases "v = JStr (original_image i)")
    case True
    let ?m = "fmupd ''image'' (JStr (image_ref i)) m"
    have l: "fmlookup ?m ''image'' = Some (JStr (image_ref i))" by simp
    from log_arguments_same_ok [OF Cons.prems(1) l Cons.prems(2)]
    obtain args' where "log_arguments a (JObj ?m) = Inr args'" by blast
    from Cons.IH [OF l this] Cons.prems True show ?thesis by simp
  next
    case False
    with Cons.IH [OF Cons.prems] Cons.prems show ?thesis by simp
  qed
qed

lemma update_container_unlogged:
  assumes "fmlookup m ''image'' = Some v" and "log_arguments a (JObj m) = Inl err"
  shows "update_container a imgs (JObj m) =
     (if \<exists>e \<in> set imgs. v = JStr (original_image e) then Inl err else Inr (JObj m))"
  using assms by (induction imgs) auto

lemma update_container_no_image:
  "fmlookup m ''image'' = None \<Longrightarrow>
     update_container a imgs (JObj m) = (if imgs = [] then Inr (JObj m) else Inl (KeyError ''image''))"
  by (cases imgs) auto

lemma update_container_not_dict:
  "type_of c \<noteq> TDict \<Longrightarrow>
     update_container a imgs c = (if imgs = [] then Inr c else Inl TypeError)"
  by (cases imgs; cases c) auto

lemma update_container_Inr:
  assumes "update_container a imgs c = Inr c'"
  shows "(imgs = [] \<and> c' = c) \<or>
         (\<exists>m v. c = JObj m \<and> fmlookup m ''image'' = Some v \<and>
                 c' = JObj (fmupd ''image'' (rewrite_image imgs v) m) \<and>
                 ((\<exists>args. log_arguments a c = Inr args) \<or>
                  (\<forall>e \<in> set imgs. v \<noteq> JStr (original_image e))))"
proof (cases c)
  case (JObj m)
  show ?thesis
  proof (cases "fmlookup m ''image''")
    case None
    with assms JObj update_container_no_image [of m a imgs] show ?thesis
      by (auto split: if_splits)
  next
    case (Some v)
    show ?thesis
    proof (cases "log_arguments a (JObj m)")
      case (Inr args)
      with JObj have ex: "\<exists>args. log_arguments a c = Inr args" by blast
      from assms JObj update_container_logged [OF Some Inr, of imgs]
      have "c' = JObj (fmupd ''image'' (rewrite_image imgs v) m)" by simp
      with JObj Some ex show ?thesis by blast
    next
      case (Inl err)
      from assms JObj update_container_unlogged [OF Some Inl, of imgs]
      have no: "\<forall>e \<in> set imgs. v \<noteq> JStr (original_image e)" and same: "c' = c"
        by (auto split: if_splits)
      from no have "rewrite_image imgs v = v" by (intro rewrite_image_no_match) auto
      with no same JObj Some show ?thesis by (auto simp: fmupd_same)
    qed
  qed
qed (use assms update_container_not_dict [of c a imgs] in \<open>auto split: if_splits\<close>)


lemma update_container_append:
  "update_container a (xs @ ys) c =
     (case update_container a xs c of Inl e \<Rightarrow> Inl e | Inr c1 \<Rightarrow> update_container a ys c1)"
  by (induction xs arbitrary: c) (auto split: sum.splits)

lemma update_container_step:
  assumes "update_container a [e] c = Inr c1"
  shows "c1 = (if getitem c ''image'' = Inr (JStr (original_image e))
               then with_item c ''image'' (JStr (image_ref e)) else c) \<and>
         (getitem c ''image'' = Inr (JStr (original_image e)) \<longrightarrow>
            getitem c1 ''image'' = Inr (JStr (image_ref e)))"
  using assms by (cases c) (auto split: sum.splits if_splits option.splits)

lemma update_containers_Inr:
  "update_containers a imgs cs = Inr cs' \<longleftrightarrow>
     list_all2 (\<lambda>c c'. update_container a imgs c = Inr c') cs cs'"
proof
  show "update_containers a imgs cs = Inr cs' \<Longrightarrow>
      list_all2 (\<lambda>c c'. update_container a imgs c = Inr c') cs cs'"
    by (induction cs arbitrary: cs') (auto split: sum.splits)
  show "list_all2 (\<lambda>c c'. update_container a imgs c = Inr c') cs cs' \<Longrightarrow>
      update_containers a imgs cs = Inr cs'"
    by (induction rule: list_all2_induct) auto
qed

lemma update_artifacts_Inr:
  "update_artifacts imgs xs = Inr xs' \<longleftrightarrow>
     list_all2 (\<lambda>a a'. update_artifact imgs a = Inr a') xs xs'"
proof
  show "update_artifacts imgs xs = Inr xs' \<Longrightarrow>
      list_all2 (\<lambda>a a'. update_artifact imgs a = Inr a') xs xs'"
    by (induction xs arbitrary: xs') (auto split: sum.splits)
  show "list_all2 (\<lambda>a a'. update_artifact imgs a = Inr a') xs xs' \<Longrightarrow>
      update_artifacts imgs xs = Inr xs'"
    by (induction rule: list_all2_induct) auto
qed



lemma get_put_containers:
  "get_containers a = Inr cs \<Longrightarrow> get_containers (put_containers a cs') = Inr cs'"
  by (cases a)
     (auto simp: get_containers_def put_containers_def
           split: sum.splits option.splits json.splits elim!: getitem.elims)


lemma kind_put_containers:
  "getitem (put_containers a cs) ''kind'' = getitem a ''kind''"
  by (cases a)
     (auto simp: put_containers_def split: sum.splits option.splits json.splits)







lemma update_artifact_workload:
  assumes "is_workload a" and "update_artifact imgs a = Inr a'"
  shows "\<exists>cs cs'. get_containers a = Inr cs \<and> update_container_list a imgs cs = Inr cs' \<and>
           a' = put_containers a cs' \<and> is_workload a' \<and> get_containers a' = Inr cs'"
proof -
  from assms obtain cs cs' where cs: "get_containers a = Inr cs"
    and cs': "update_container_list a imgs cs = Inr cs'" and a': "a' = put_containers a cs'"
    by (auto simp: update_artifact_def is_workload_def split: sum.splits if_splits)
  from assms(1) a' have "is_workload a'" by (simp add: is_workload_def kind_put_containers)
  with cs cs' a' get_put_containers [OF cs, of cs'] show ?thesis by blast
qed


lemma update_artifact_container:
  assumes "is_workload a" and "update_artifact imgs a = Inr a'"
    and "j < length (containers_of a)"
  shows "is_workload a' \<and> length (containers_of a') = length (containers_of a) \<and>
         update_container a imgs (containers_of a ! j) = Inr (containers_of a' ! j)"
proof -
  from update_artifact_workload [OF assms(1,2)] obtain cs cs'
    where cs: "get_containers a = Inr cs" and cs': "update_container_list a imgs cs = Inr cs'"
      and w: "is_workload a'" and g: "get_containers a' = Inr cs'" by blast
  from assms(3) cs obtain xs where xs: "cs = JArr xs" "containers_of a = xs"
    by (cases cs) (auto simp: containers_of_def)
  with cs' obtain xs' where xs': "cs' = JArr xs'" "update_containers a imgs xs = Inr xs'"
    by (auto split: sum.splits)
  with g have c': "containers_of a' = xs'" by (simp add: containers_of_def)
  from xs'(2) have "list_all2 (\<lambda>c c'. update_container a imgs c = Inr c') xs xs'"
    by (simp add: update_containers_Inr)
  with assms(3) xs(2) c' w show ?thesis by (auto simp: list_all2_conv_all_nth)
qed

lemma update_providers_other:
  "update_providers imgs ps arts = Inr arts' \<Longrightarrow> q \<notin> set ps \<Longrightarrow>
     fmlookup arts' q = fmlookup arts q"
  by (induction ps arbitrary: arts) (auto split: option.splits sum.splits)

lemma update_providers_distinct:
  "update_providers imgs ps arts = Inr arts' \<Longrightarrow> distinct ps \<Longrightarrow> p \<in> set ps \<Longrightarrow>
     \<exists>xs xs'. fmlookup arts p = Some xs \<and> update_artifacts imgs xs = Inr xs' \<and>
              fmlookup arts' p = Some xs'"
proof (induction ps arbitrary: arts)
  case Nil
  then show ?case by simp
next
  case (Cons q ps)
  from Cons.prems(1) obtain xs xs' where xs: "fmlookup arts q = Some xs"
    and xs': "update_artifacts imgs xs = Inr xs'"
    and rest: "update_providers imgs ps (fmupd q xs' arts) = Inr arts'"
    by (auto split: option.splits sum.splits)
  show ?case
  proof (cases "p = q")
    case True
    with Cons.prems(2) have "q \<notin> set ps" by simp
    from update_providers_other [OF rest this] xs xs' True show ?thesis by simp
  next
    case False
    with Cons.prems have "distinct ps" "p \<in> set ps" by simp_all
    from Cons.IH [OF rest this] False show ?thesis by simp
  qed
qed











text \<open>
  C4. After a successful \<open>update_artifacts_images\<close> (over distinct providers) the
  inventory, the number of artifacts and the number of containers of each workload
  artifact are as before, and every container \<open>c\<close> of a workload artifact has become what
  the loop of lines 304-310 makes of it. At every entry \<open>e\<close> of the inventory, with \<open>cn\<close>
  the container as the entries before \<open>e\<close> have left it: if the image string of \<open>cn\<close> is
  the original image of \<open>e\<close>, the container's image string is set to the image of \<open>e\<close>,
  and otherwise the container is left as it is. A container whose image string is the
  original image of no entry is unchanged. A container whose image string is the
  original image of an entry \<open>e\<close> ends with the image of \<open>e\<close> when the entries with that
  original image have the image of \<open>e\<close> and no entry rewrites that image further.
\<close>

theorem update_artifacts_images_at_scan:
  assumes "update_artifacts_images providers ep = Inr ep'"
    and "distinct providers" and "p \<in> set providers"
    and "k < length (provider_artifacts (artifacts ep) p)"
    and "a = provider_artifacts (artifacts ep) p ! k"
    and "a' = provider_artifacts (artifacts ep') p ! k"
    and "is_workload a"
    and "j < length (containers_of a)"
    and "c = containers_of a ! j"
    and "c' = containers_of a' ! j"
  shows "images ep' = images ep \<and>
         length (provider_artifacts (artifacts ep') p) = length (provider_artifacts (artifacts ep) p) \<and>
         is_workload a' \<and>
         length (containers_of a') = length (containers_of a) \<and>
         update_container a (images ep) c = Inr c' \<and>
         (\<forall>pre e post. images ep = pre @ e # post \<longrightarrow>
            (\<exists>cn cn'. update_container a pre c = Inr cn \<and>
                       update_container a (pre @ [e]) c = Inr cn' \<and>
                       (if getitem cn ''image'' = Inr (JStr (original_image e))
                        then cn' = with_item cn ''image'' (JStr (image_ref e)) \<and>
                             getitem cn' ''image'' = Inr (JStr (image_ref e))
                        else cn' = cn))) \<and>
         ((\<forall>e \<in> set (images ep). getitem c ''image'' \<noteq> Inr (JStr (original_image e))) \<longrightarrow>
            c' = c) \<and>
         (\<forall>e \<in> set (images ep).
            getitem c ''image'' = Inr (JStr (original_image e)) \<and>
            (\<forall>x \<in> set (images ep).
               original_image x = original_image e \<longrightarrow> image_ref x = image_ref e) \<and>
            (\<forall>x \<in> set (images ep).
               original_image x = image_ref e \<longrightarrow> image_ref x = image_ref e) \<longrightarrow>
            c' = with_item c ''image'' (JStr (image_ref e)) \<and>
            getitem c' ''image'' = Inr (JStr (image_ref e)))"
proof -
  let ?imgs = "images ep"
  from assms(1) obtain arts' where run: "update_providers ?imgs providers (artifacts ep) = Inr arts'"
    and ep': "ep' = ep\<lparr>artifacts := arts'\<rparr>"
    by (auto simp: update_artifacts_images_def split: sum.splits)
  from update_providers_distinct [OF run assms(2,3)] obtain xs xs'
    where xs: "fmlookup (artifacts ep) p = Some xs"
      and upd: "update_artifacts ?imgs xs = Inr xs'"
      and xs': "fmlookup arts' p = Some xs'" by blast
  from xs xs' ep' have pa: "provider_artifacts (artifacts ep) p = xs"
    "provider_artifacts (artifacts ep') p = xs'"
    by (simp_all add: provider_artifacts_def)
  from upd have all2: "list_all2 (\<lambda>a a'. update_artifact ?imgs a = Inr a') xs xs'"
    by (simp add: update_artifacts_Inr)
  with assms(4,5,6) pa have len: "length xs' = length xs"
    and one: "update_artifact ?imgs a = Inr a'"
    by (auto simp: list_all2_conv_all_nth)
  from update_artifact_container [OF assms(7) one assms(8)] assms(9,10)
  have w: "is_workload a'" and lc: "length (containers_of a') = length (containers_of a)"
    and c: "update_container a ?imgs c = Inr c'" by simp_all
  have steps: "\<forall>pre e post. ?imgs = pre @ e # post \<longrightarrow>
            (\<exists>cn cn'. update_container a pre c = Inr cn \<and>
                       update_container a (pre @ [e]) c = Inr cn' \<and>
                       (if getitem cn ''image'' = Inr (JStr (original_image e))
                        then cn' = with_item cn ''image'' (JStr (image_ref e)) \<and>
                             getitem cn' ''image'' = Inr (JStr (image_ref e))
                        else cn' = cn))"
  proof (intro allI impI)
    fix pre e post assume split: "?imgs = pre @ e # post"
    with c have "update_container a (pre @ ([e] @ post)) c = Inr c'" by simp
    moreover have "update_container a (pre @ ([e] @ post)) c =
        (case update_container a pre c of Inl x \<Rightarrow> Inl x
         | Inr c1 \<Rightarrow> update_container a ([e] @ post) c1)"
      by (rule update_container_append)
    ultimately obtain cn where cn: "update_container a pre c = Inr cn"
      and r: "update_container a ([e] @ post) cn = Inr c'"
      by (cases "update_container a pre c") simp_all
    have "update_container a ([e] @ post) cn =
        (case update_container a [e] cn of Inl x \<Rightarrow> Inl x | Inr c1 \<Rightarrow> update_container a post c1)"
      by (rule update_container_append)
    with r obtain cn' where cn': "update_container a [e] cn = Inr cn'"
      by (cases "update_container a [e] cn") simp_all
    have "update_container a (pre @ [e]) c =
        (case update_container a pre c of Inl x \<Rightarrow> Inl x | Inr c1 \<Rightarrow> update_container a [e] c1)"
      by (rule update_container_append)
    with cn cn' have both: "update_container a (pre @ [e]) c = Inr cn'" by simp
    have "if getitem cn ''image'' = Inr (JStr (original_image e))
          then cn' = with_item cn ''image'' (JStr (image_ref e)) \<and>
               getitem cn' ''image'' = Inr (JStr (image_ref e))
          else cn' = cn"
    proof (cases "getitem cn ''image'' = Inr (JStr (original_image e))")
      case True
      from update_container_step [OF cn'] True
      have "cn' = with_item cn ''image'' (JStr (image_ref e))"
        and "getitem cn' ''image'' = Inr (JStr (image_ref e))" by (simp, blast)
      then show ?thesis unfolding if_P [OF True] by (rule conjI)
    next
      case False
      from update_container_step [OF cn'] False have "cn' = cn" by simp
      then show ?thesis unfolding if_not_P [OF False] .
    qed
    with cn both show "\<exists>cn cn'. update_container a pre c = Inr cn \<and>
                       update_container a (pre @ [e]) c = Inr cn' \<and>
                       (if getitem cn ''image'' = Inr (JStr (original_image e))
                        then cn' = with_item cn ''image'' (JStr (image_ref e)) \<and>
                             getitem cn' ''image'' = Inr (JStr (image_ref e))
                        else cn' = cn)" by blast
  qed
  from update_container_Inr [OF c]
  have shape: "(?imgs = [] \<and> c' = c) \<or>
         (\<exists>m v. c = JObj m \<and> fmlookup m ''image'' = Some v \<and>
                 c' = JObj (fmupd ''image'' (rewrite_image ?imgs v) m))" by blast
  have none: "(\<forall>e \<in> set ?imgs. getitem c ''image'' \<noteq> Inr (JStr (original_image e))) \<longrightarrow> c' = c"
  proof
    assume no: "\<forall>e \<in> set ?imgs. getitem c ''image'' \<noteq> Inr (JStr (original_image e))"
    from shape show "c' = c"
    proof
      assume "?imgs = [] \<and> c' = c"
      then show ?thesis by simp
    next
      assume "\<exists>m v. c = JObj m \<and> fmlookup m ''image'' = Some v \<and>
                 c' = JObj (fmupd ''image'' (rewrite_image ?imgs v) m)"
      then obtain m v where m: "c = JObj m" "fmlookup m ''image'' = Some v"
        and c': "c' = JObj (fmupd ''image'' (rewrite_image ?imgs v) m)" by blast
      from no m have "\<forall>e \<in> set ?imgs. JStr (original_image e) \<noteq> v" by auto
      then have "rewrite_image ?imgs v = v" by (rule rewrite_image_no_match)
      with c' m show ?thesis by (simp add: fmupd_same)
    qed
  qed
  have some: "\<forall>e \<in> set ?imgs.
            getitem c ''image'' = Inr (JStr (original_image e)) \<and>
            (\<forall>x \<in> set ?imgs. original_image x = original_image e \<longrightarrow> image_ref x = image_ref e) \<and>
            (\<forall>x \<in> set ?imgs. original_image x = image_ref e \<longrightarrow> image_ref x = image_ref e) \<longrightarrow>
            c' = with_item c ''image'' (JStr (image_ref e)) \<and>
            getitem c' ''image'' = Inr (JStr (image_ref e))"
  proof (intro ballI impI)
    fix e assume e: "e \<in> set ?imgs"
      and h: "getitem c ''image'' = Inr (JStr (original_image e)) \<and>
            (\<forall>x \<in> set ?imgs. original_image x = original_image e \<longrightarrow> image_ref x = image_ref e) \<and>
            (\<forall>x \<in> set ?imgs. original_image x = image_ref e \<longrightarrow> image_ref x = image_ref e)"
    from h have g: "getitem c ''image'' = Inr (JStr (original_image e))"
      and h1: "\<forall>x \<in> set ?imgs. original_image x = original_image e \<longrightarrow> image_ref x = image_ref e"
      and h2: "\<forall>x \<in> set ?imgs. original_image x = image_ref e \<longrightarrow> image_ref x = image_ref e"
      by blast+
    from e have h4: "\<exists>x \<in> set ?imgs. original_image x = original_image e" by blast
    from rewrite_image_agree [OF h1 h2 h4]
    have r: "rewrite_image ?imgs (JStr (original_image e)) = JStr (image_ref e)" .
    from g obtain m where m: "c = JObj m" "fmlookup m ''image'' = Some (JStr (original_image e))"
      by (cases c) (auto split: option.splits)
    from e have "?imgs \<noteq> []" by auto
    with shape m r have "c' = JObj (fmupd ''image'' (JStr (image_ref e)) m)" by auto
    with m show "c' = with_item c ''image'' (JStr (image_ref e)) \<and>
            getitem c' ''image'' = Inr (JStr (image_ref e))" by simp
  qed
  from ep' have i: "images ep' = images ep" by simp
  from pa len have l: "length (provider_artifacts (artifacts ep') p) =
      length (provider_artifacts (artifacts ep) p)" by simp
  show ?thesis by (intro conjI) (rule i l w lc c steps none some)+
qed

theorem update_artifacts_images_at_scan_witness:
  "update_artifacts_images NULECULE_PROVIDERS pulled_model = Inr updated_model \<and>
   getitem (containers_of (provider_artifacts (artifacts pulled_model) ''openshift'' ! 2) ! 0)
     ''image'' = Inr (JStr ''int/app:v1'') \<and>
   original_image (images pulled_model ! 1) = ''int/app:v1'' \<and>
   image_ref (images pulled_model ! 1) = ''new/app:v1'' \<and>
   getitem (containers_of (provider_artifacts (artifacts updated_model) ''openshift'' ! 2) ! 0)
     ''image'' = Inr (JStr ''new/app:v1'') \<and>
   containers_of (provider_artifacts (artifacts updated_model) ''openshift'' ! 2) ! 1 =
     containers_of (provider_artifacts (artifacts pulled_model) ''openshift'' ! 2) ! 1"
proof -
  let ?a = "provider_artifacts (artifacts pulled_model) ''openshift'' ! 2"
  let ?a' = "provider_artifacts (artifacts updated_model) ''openshift'' ! 2"
  let ?e = "images pulled_model ! 1"
  have run: "update_artifacts_images NULECULE_PROVIDERS pulled_model = Inr updated_model"
    by code_simp
  have d: "distinct NULECULE_PROVIDERS" by code_simp
  have p: "''openshift'' \<in> set NULECULE_PROVIDERS" by code_simp
  have k: "2 < length (provider_artifacts (artifacts pulled_model) ''openshift'')" by code_simp
  have w: "is_workload ?a" by code_simp
  have j: "0 < length (containers_of ?a)" by code_simp
  have s: "getitem (containers_of ?a ! 0) ''image'' = Inr (JStr (original_image ?e))" by code_simp
  have s': "getitem (containers_of ?a ! 0) ''image'' = Inr (JStr ''int/app:v1'')" by code_simp
  have e: "?e \<in> set (images pulled_model)" by code_simp
  have h1: "\<forall>x \<in> set (images pulled_model).
      original_image x = original_image ?e \<longrightarrow> image_ref x = image_ref ?e" by code_simp
  have h2: "\<forall>x \<in> set (images pulled_model).
      original_image x = image_ref ?e \<longrightarrow> image_ref x = image_ref ?e" by code_simp
  have o: "original_image ?e = ''int/app:v1''" by code_simp
  have r: "image_ref ?e = ''new/app:v1''" by code_simp
  have same: "containers_of ?a' ! 1 = containers_of ?a ! 1" by code_simp
  from update_artifacts_images_at_scan [OF run d p k refl refl w j refl refl] e s h1 h2
  have "getitem (containers_of ?a' ! 0) ''image'' = Inr (JStr (image_ref ?e))" by blast
  with r have last: "getitem (containers_of ?a' ! 0) ''image'' = Inr (JStr ''new/app:v1'')"
    by simp
  show ?thesis by (intro conjI) (rule run s' o r last same)+
qed

text \<open>
  C10, as the code has it. The loop over the inventory compares each entry with the image
  the container has at that moment. So the first entry whose original image is the
  container's image string \<open>s\<close> writes its image (after the arguments of the log call
  have been read, which can raise), and the later entries with the original image \<open>s\<close>
  do not match any more: the container keeps the image of that first entry unless it is
  itself the original image of a later entry. In the counterexample two entries have the
  original image \<open>a\<close> and the images \<open>b\<close> and \<open>c\<close>: the container ends up with \<open>b\<close>, the
  image of the first, not of the last.
\<close>

theorem update_container_first_match:
  assumes "getitem c ''image'' = Inr (JStr s)"
    and "imgs = pre @ e # post"
    and "\<forall>x \<in> set pre. original_image x \<noteq> s"
    and "original_image e = s"
    and "\<forall>x \<in> set post. original_image x \<noteq> image_ref e"
  shows "update_container a imgs c =
           (case log_arguments a c of
              Inl err \<Rightarrow> Inl err
            | Inr args \<Rightarrow> Inr (with_item c ''image'' (JStr (image_ref e)))) \<and>
         getitem (with_item c ''image'' (JStr (image_ref e))) ''image'' = Inr (JStr (image_ref e))"
proof -
  from assms(1) obtain m where m: "c = JObj m" "fmlookup m ''image'' = Some (JStr s)"
    by (cases c) (auto split: option.splits)
  from rewrite_image_first [OF assms(3,4,5)] assms(2)
  have r: "rewrite_image imgs (JStr s) = JStr (image_ref e)" by simp
  have u: "update_container a imgs c =
           (case log_arguments a c of
              Inl err \<Rightarrow> Inl err
            | Inr args \<Rightarrow> Inr (with_item c ''image'' (JStr (image_ref e))))"
  proof (cases "log_arguments a (JObj m)")
    case (Inr args)
    from update_container_logged [OF m(2) Inr, of imgs] r m(1) Inr show ?thesis by simp
  next
    case (Inl err)
    from assms(2,4) have "\<exists>x \<in> set imgs. JStr s = JStr (original_image x)" by auto
    with update_container_unlogged [OF m(2) Inl, of imgs] m(1) Inl show ?thesis by simp
  qed
  with m show ?thesis by simp
qed

theorem update_container_first_match_witness:
  "log_arguments dc (container ''a'') = Inr (JStr ''a'', JStr ''DeploymentConfig'', JStr ''app'') \<and>
   update_container dc
     (\<lparr>original_image = ''x'', image_ref = ''y'', internal = False\<rparr> # diverging_images)
     (container ''a'') = Inr (container ''b'')"
proof -
  let ?pre = "[\<lparr>original_image = ''x'', image_ref = ''y'', internal = False\<rparr>]"
  let ?e = "\<lparr>original_image = ''a'', image_ref = ''b'', internal = True\<rparr>"
  let ?post = "[\<lparr>original_image = ''a'', image_ref = ''c'', internal = True\<rparr>]"
  have c: "getitem (container ''a'') ''image'' = Inr (JStr ''a'')" by code_simp
  have i: "\<lparr>original_image = ''x'', image_ref = ''y'', internal = False\<rparr> # diverging_images =
      ?pre @ ?e # ?post" by (simp add: diverging_images_def)
  have pre: "\<forall>x \<in> set ?pre. original_image x \<noteq> ''a''" by simp
  have e: "original_image ?e = ''a''" by simp
  have post: "\<forall>x \<in> set ?post. original_image x \<noteq> image_ref ?e" by simp
  have l: "log_arguments dc (container ''a'') =
      Inr (JStr ''a'', JStr ''DeploymentConfig'', JStr ''app'')" by code_simp
  have w: "with_item (container ''a'') ''image'' (JStr (image_ref ?e)) = container ''b''"
    by code_simp
  from update_container_first_match [OF c i pre e post, of dc] l w
  have "update_container dc
     (\<lparr>original_image = ''x'', image_ref = ''y'', internal = False\<rparr> # diverging_images)
     (container ''a'') = Inr (container ''b'')" by simp
  with l show ?thesis by (rule conjI)
qed

theorem update_container_first_match_counterexample:
  "getitem (container ''a'') ''image'' = Inr (JStr (original_image (diverging_images ! 0))) \<and>
   getitem (container ''a'') ''image'' = Inr (JStr (original_image (diverging_images ! 1))) \<and>
   image_ref (diverging_images ! 0) = ''b'' \<and>
   image_ref (diverging_images ! 1) = ''c'' \<and>
   length diverging_images = 2 \<and>
   update_container dc diverging_images (container ''a'') = Inr (container ''b'') \<and>
   update_artifacts_images NULECULE_PROVIDERS (one_container_project diverging_images ''a'') =
     Inr (one_container_project diverging_images ''b'')"
  by code_simp

end
